theory Spec2Isabelle
  imports Complex_Main "HOL-Library.Log_Nat"
begin

section \<open>JavaScript numbers\<close>

text \<open>
  The detector (\<^verbatim>\<open>src/lib/ai/advanced-detector.ts\<close>) computes on JavaScript numbers,
  the binary64 numbers of IEEE 754. A number is modelled as a real or one of the three
  special values, and every arithmetic operation rounds its exact result to the
  nearest binary64 number, ties to even, with gradual underflow and with overflow to
  an infinity (\<open>binary64\<close> below). The operations follow the special-value rules of the
  language: a division by zero gives an infinity or NaN, a comparison with NaN is
  false, \<^verbatim>\<open>Math.min\<close> of NaN is NaN. The sign of zero is not modelled: zero is
  positive.

  The numbers the caller supplies (the candidate value, the historical values) are
  finite binary64 numbers, given as reals; every number the code computes from them
  is a \<open>jsnum\<close>.
\<close>

datatype jsnum = Fin real | PInf | NInf | NaN

subsection \<open>Rounding to binary64\<close>

text \<open>The integer nearest to a real, the even one of two that are equally near.\<close>

definition rhe :: "real \<Rightarrow> int" where
  "rhe x =
     (let n = \<lfloor>x\<rfloor>; f = x - of_int n
      in if f < 1 / 2 then n else if 1 / 2 < f then n + 1 else if even n then n else n + 1)"

text \<open>The binary exponent of a positive real \<open>a\<close>: the integer \<open>e\<close> with
  \<open>2\<^sup>e \<le> a < 2\<^sup>e\<^sup>+\<^sup>1\<close> (\<open>ilog2_bounds\<close> below), computed on integers.\<close>

definition ilog2 :: "real \<Rightarrow> int" where
  "ilog2 a =
     (if 1 \<le> a then int (floorlog 2 (nat \<lfloor>a\<rfloor>)) - 1
      else - int (floorlog 2 (nat (\<lceil>1 / a\<rceil> - 1))))"

text \<open>The exponent of the binary64 format for \<open>a\<close>, which is at least \<open>-1022\<close> (below
  \<open>2\<^sup>-\<^sup>1\<^sup>0\<^sup>2\<^sup>2\<close> the numbers are subnormal), and the significand of 53 bits, an integer:
  \<open>a\<close> is rounded to \<open>mant a \<sqdot> 2 powi (expo a - 52)\<close>.\<close>

definition expo :: "real \<Rightarrow> int" where
  "expo a = max (ilog2 a) (- 1022)"

definition mant :: "real \<Rightarrow> int" where
  "mant a = rhe (a / 2 powi (expo a - 52))"

text \<open>The binary64 number nearest to a real. The result overflows to an infinity when
  the rounded magnitude reaches \<open>2\<^sup>1\<^sup>0\<^sup>2\<^sup>4\<close>, that is when the exponent is above 1023, or
  is 1023 and the significand has been rounded up to \<open>2\<^sup>5\<^sup>3 = 9007199254740992\<close>.\<close>

definition binary64 :: "real \<Rightarrow> jsnum" where
  "binary64 x =
     (if x = 0 then Fin 0
      else
        let a = \<bar>x\<bar>; e = expo a; n = mant a
        in if 1024 \<le> e \<or> (e = 1023 \<and> n = 9007199254740992) then (if 0 < x then PInf else NInf)
           else Fin (if 0 < x then of_int n * 2 powi (e - 52) else - (of_int n * 2 powi (e - 52))))"

text \<open>A decimal literal of the source denotes the binary64 number nearest to it.\<close>

definition lit :: "real \<Rightarrow> jsnum" where
  "lit x = binary64 x"

subsection \<open>Arithmetic and comparisons\<close>

fun jadd :: "jsnum \<Rightarrow> jsnum \<Rightarrow> jsnum" where
  "jadd (Fin a) (Fin b) = binary64 (a + b)"
| "jadd NaN _ = NaN"
| "jadd _ NaN = NaN"
| "jadd PInf NInf = NaN"
| "jadd NInf PInf = NaN"
| "jadd PInf _ = PInf"
| "jadd _ PInf = PInf"
| "jadd NInf _ = NInf"
| "jadd _ NInf = NInf"

fun jneg :: "jsnum \<Rightarrow> jsnum" where
  "jneg (Fin a) = Fin (- a)"
| "jneg PInf = NInf"
| "jneg NInf = PInf"
| "jneg NaN = NaN"

definition jsub :: "jsnum \<Rightarrow> jsnum \<Rightarrow> jsnum" where
  "jsub a b = jadd a (jneg b)"

text \<open>The sign of a number that is not NaN, as a truth value: is it negative?\<close>

fun jnegative :: "jsnum \<Rightarrow> bool" where
  "jnegative (Fin a) = (a < 0)"
| "jnegative NInf = True"
| "jnegative _ = False"

fun jmul :: "jsnum \<Rightarrow> jsnum \<Rightarrow> jsnum" where
  "jmul (Fin a) (Fin b) = binary64 (a * b)"
| "jmul NaN _ = NaN"
| "jmul _ NaN = NaN"
| "jmul (Fin a) b = (if a = 0 then NaN else if (a < 0) = jnegative b then PInf else NInf)"
| "jmul a (Fin b) = (if b = 0 then NaN else if jnegative a = (b < 0) then PInf else NInf)"
| "jmul a b = (if jnegative a = jnegative b then PInf else NInf)"

fun jdiv :: "jsnum \<Rightarrow> jsnum \<Rightarrow> jsnum" where
  "jdiv (Fin a) (Fin b) =
     (if b = 0 then (if a = 0 then NaN else if 0 < a then PInf else NInf)
      else binary64 (a / b))"
| "jdiv NaN _ = NaN"
| "jdiv _ NaN = NaN"
| "jdiv (Fin a) _ = Fin 0"
| "jdiv a (Fin b) = (if jnegative a = (b < 0) then PInf else NInf)"
| "jdiv _ _ = NaN"

text \<open>The comparisons \<^verbatim>\<open><\<close>, \<^verbatim>\<open>>\<close>, \<^verbatim>\<open>===\<close>, \<^verbatim>\<open>>=\<close> and \<^verbatim>\<open><=\<close>.\<close>

fun jlt :: "jsnum \<Rightarrow> jsnum \<Rightarrow> bool" where
  "jlt (Fin a) (Fin b) = (a < b)"
| "jlt NaN _ = False"
| "jlt _ NaN = False"
| "jlt _ NInf = False"
| "jlt PInf _ = False"
| "jlt _ _ = True"

definition jgt :: "jsnum \<Rightarrow> jsnum \<Rightarrow> bool" where
  "jgt a b = jlt b a"

fun jeq :: "jsnum \<Rightarrow> jsnum \<Rightarrow> bool" where
  "jeq NaN _ = False"
| "jeq _ NaN = False"
| "jeq a b = (a = b)"

definition jge :: "jsnum \<Rightarrow> jsnum \<Rightarrow> bool" where
  "jge a b = (jlt b a \<or> jeq a b)"

fun jle :: "jsnum \<Rightarrow> jsnum \<Rightarrow> bool" where
  "jle (Fin a) (Fin b) = (a \<le> b)"
| "jle NaN _ = False"
| "jle _ NaN = False"
| "jle NInf _ = True"
| "jle _ PInf = True"
| "jle _ _ = False"

text \<open>\<^verbatim>\<open>Math.abs\<close>, \<^verbatim>\<open>Math.min\<close> of two arguments, \<^verbatim>\<open>Math.sqrt\<close>, \<^verbatim>\<open>Math.pow(x, 2)\<close>,
  \<^verbatim>\<open>Math.pow(2, y)\<close> and \<^verbatim>\<open>Math.log\<close>. The square root is correctly rounded, as IEEE 754
  requires; so are, in this model, the power and the logarithm, which the language
  leaves to the implementation to approximate.\<close>

fun jabs :: "jsnum \<Rightarrow> jsnum" where
  "jabs (Fin a) = Fin \<bar>a\<bar>"
| "jabs NaN = NaN"
| "jabs _ = PInf"

fun jmin :: "jsnum \<Rightarrow> jsnum \<Rightarrow> jsnum" where
  "jmin (Fin a) (Fin b) = Fin (min a b)"
| "jmin NaN _ = NaN"
| "jmin _ NaN = NaN"
| "jmin NInf _ = NInf"
| "jmin _ NInf = NInf"
| "jmin PInf b = b"
| "jmin a PInf = a"

fun jsqrt :: "jsnum \<Rightarrow> jsnum" where
  "jsqrt (Fin a) = (if a < 0 then NaN else binary64 (sqrt a))"
| "jsqrt PInf = PInf"
| "jsqrt _ = NaN"

fun jsquare :: "jsnum \<Rightarrow> jsnum" where
  "jsquare (Fin a) = binary64 (a\<^sup>2)"
| "jsquare NaN = NaN"
| "jsquare _ = PInf"

fun jpow2 :: "jsnum \<Rightarrow> jsnum" where
  "jpow2 (Fin y) = binary64 (2 powr y)"
| "jpow2 PInf = PInf"
| "jpow2 NInf = Fin 0"
| "jpow2 NaN = NaN"

fun jlog :: "jsnum \<Rightarrow> jsnum" where
  "jlog (Fin a) = (if a < 0 then NaN else if a = 0 then NInf else binary64 (ln a))"
| "jlog PInf = PInf"
| "jlog _ = NaN"

text \<open>\<^verbatim>\<open>xs[i]\<close> inside an arithmetic expression: an index outside the array reads
  \<^verbatim>\<open>undefined\<close>, which arithmetic turns into NaN.\<close>

definition js_nth :: "jsnum list \<Rightarrow> int \<Rightarrow> jsnum" where
  "js_nth xs i = (if 0 \<le> i \<and> i < int (length xs) then xs ! nat i else NaN)"

text \<open>\<^verbatim>\<open>Array.prototype.sort\<close> with a comparator. The sort of the language is
  stable; on a comparator that orders the elements consistently, as the difference of
  two numbers that are not NaN does, its result is that of the insertion sort below:
  the elements are inserted from the last to the first, each one before the first
  element that the comparator does not put it above (a result that is negative, zero
  or NaN), so that elements the comparator does not tell apart keep their order.\<close>

fun insert_by :: "('a \<Rightarrow> 'a \<Rightarrow> jsnum) \<Rightarrow> 'a \<Rightarrow> 'a list \<Rightarrow> 'a list" where
  "insert_by cmp x [] = [x]"
| "insert_by cmp x (y # ys) =
     (if jgt (cmp x y) (Fin 0) then y # insert_by cmp x ys else x # y # ys)"

definition sort_by :: "('a \<Rightarrow> 'a \<Rightarrow> jsnum) \<Rightarrow> 'a list \<Rightarrow> 'a list" where
  "sort_by cmp xs = foldr (insert_by cmp) xs []"

section \<open>StatisticalDetectors\<close>

record DetectorResult =
  isAnomaly :: bool
  score :: jsnum

record StatResult = DetectorResult +
  deviation :: jsnum

record IqrResult = DetectorResult +
  expectedRange :: "jsnum \<times> jsnum"

text \<open>\<^verbatim>\<open>private static median(sorted)\<close>.\<close>

definition median :: "jsnum list \<Rightarrow> jsnum" where
  "median sorted' =
     (let mid = int (length sorted') div 2
      in if length sorted' mod 2 = 0
         then jdiv (jadd (js_nth sorted' (mid - 1)) (js_nth sorted' mid)) (Fin 2)
         else js_nth sorted' mid)"

text \<open>\<^verbatim>\<open>private static percentile(sorted, p)\<close>. An index that is not finite reads
  \<^verbatim>\<open>undefined\<close>, and the result is NaN. The floor of a binary64 number is one.\<close>

definition percentile :: "jsnum list \<Rightarrow> real \<Rightarrow> jsnum" where
  "percentile sorted' p =
     (case jmul (jdiv (Fin p) (Fin 100)) (Fin (real (length sorted') - 1)) of
        Fin index \<Rightarrow>
          let lower = \<lfloor>index\<rfloor>;
              upper = \<lceil>index\<rceil>;
              weight = jsub (Fin index) (Fin (of_int lower))
          in jadd (jmul (js_nth sorted' lower) (jsub (Fin 1) weight))
                  (jmul (js_nth sorted' upper) weight)
      | _ \<Rightarrow> NaN)"

text \<open>\<^verbatim>\<open>static zScore(value, data, threshold = 3)\<close>. The two \<^verbatim>\<open>reduce\<close> calls are
  left folds from 0.\<close>

definition zScore :: "real \<Rightarrow> real list \<Rightarrow> real \<Rightarrow> StatResult" where
  "zScore v data threshold =
     (if length data < 2 then \<lparr>isAnomaly = False, score = Fin 0, deviation = Fin 0\<rparr>
      else
        let mean = jdiv (foldl (\<lambda>a b. jadd a (Fin b)) (Fin 0) data) (Fin (real (length data)));
            variance = jdiv (foldl (\<lambda>a b. jadd a (jsquare (jsub (Fin b) mean))) (Fin 0) data)
                            (Fin (real (length data)));
            stdDev = jsqrt variance
        in if jeq stdDev (Fin 0) then \<lparr>isAnomaly = False, score = Fin 0, deviation = Fin 0\<rparr>
           else
             let zScore = jabs (jdiv (jsub (Fin v) mean) stdDev);
                 deviation = zScore
             in \<lparr>isAnomaly = jgt zScore (Fin threshold),
                 score = jmin (jdiv zScore (Fin threshold)) (Fin 1),
                 deviation = deviation\<rparr>)"

text \<open>\<^verbatim>\<open>static mad(value, data, threshold = 3.5)\<close>. The comparator \<^verbatim>\<open>(a, b) => a - b\<close>
  sorts finite numbers in ascending order. The absolute deviations are passed to
  \<open>median\<close> in the order of \<open>data\<close>, as the source does.\<close>

definition mad :: "real \<Rightarrow> real list \<Rightarrow> real \<Rightarrow> StatResult" where
  "mad v data threshold =
     (if length data < 2 then \<lparr>isAnomaly = False, score = Fin 0, deviation = Fin 0\<rparr>
      else
        let sorted = map Fin (sort data);
            median' = median sorted;
            deviations = map (\<lambda>x. jabs (jsub (Fin x) median')) data;
            mad = median deviations
        in if jeq mad (Fin 0) then \<lparr>isAnomaly = False, score = Fin 0, deviation = Fin 0\<rparr>
           else
             let modifiedZScore = jdiv (jmul (lit 0.6745) (jabs (jsub (Fin v) median'))) mad;
                 deviation = modifiedZScore
             in \<lparr>isAnomaly = jgt modifiedZScore (Fin threshold),
                 score = jmin (jdiv modifiedZScore (Fin threshold)) (Fin 1),
                 deviation = deviation\<rparr>)"

text \<open>\<^verbatim>\<open>static iqr(value, data, multiplier = 1.5)\<close>. Nothing guards the two divisions
  by \<open>iqr\<close>.\<close>

definition iqr :: "real \<Rightarrow> real list \<Rightarrow> real \<Rightarrow> IqrResult" where
  "iqr v data multiplier =
     (if length data < 4 then \<lparr>isAnomaly = False, score = Fin 0, expectedRange = (Fin 0, Fin 0)\<rparr>
      else
        let sorted = map Fin (sort data);
            q1 = percentile sorted 25;
            q3 = percentile sorted 75;
            iqr = jsub q3 q1;
            lowerBound = jsub q1 (jmul (Fin multiplier) iqr);
            upperBound = jadd q3 (jmul (Fin multiplier) iqr);
            isAnomaly = (jlt (Fin v) lowerBound \<or> jgt (Fin v) upperBound);
            distance = (if jlt (Fin v) lowerBound then jdiv (jsub lowerBound (Fin v)) iqr
                        else if jgt (Fin v) upperBound then jdiv (jsub (Fin v) upperBound) iqr
                        else Fin 0)
        in \<lparr>isAnomaly = isAnomaly,
            score = jmin distance (Fin 1),
            expectedRange = (lowerBound, upperBound)\<rparr>)"

section \<open>The host: clock and random source\<close>

text \<open>
  \<^verbatim>\<open>Date.now()\<close> and \<^verbatim>\<open>Math.random()\<close> read the host. The host is a record that is
  passed through every function that reads it: \<open>clock h n\<close> is the \<open>n\<close>-th reading
  of the clock, \<open>rng h n\<close> the \<open>n\<close>-th random draw, and the counters say how many
  have been consumed.
\<close>

record host =
  clock :: "nat \<Rightarrow> int"
  rng :: "nat \<Rightarrow> real"
  ticks :: nat
  draws :: nat

definition date_now :: "host \<Rightarrow> int \<times> host" where
  "date_now h = (clock h (ticks h), h\<lparr>ticks := Suc (ticks h)\<rparr>)"

definition math_random :: "host \<Rightarrow> real \<times> host" where
  "math_random h = (rng h (draws h), h\<lparr>draws := Suc (draws h)\<rparr>)"

text \<open>Number formatting (\<^verbatim>\<open>Number.prototype.toFixed\<close> and the conversion of a number
  inside a template literal) is a builtin of the language, taken as a parameter.\<close>

record NumberFormat =
  toFixed :: "jsnum \<Rightarrow> nat \<Rightarrow> string"
  toString :: "jsnum \<Rightarrow> string"

text \<open>The only exception the detector can raise by itself: a property read on
  \<^verbatim>\<open>undefined\<close>.\<close>

datatype error = TypeError

section \<open>MLDetectors\<close>

text \<open>\<^verbatim>\<open>Math.min(...xs)\<close> and \<^verbatim>\<open>Math.max(...xs)\<close>: the minimum of no argument is
  \<^verbatim>\<open>Infinity\<close>, the maximum \<^verbatim>\<open>-Infinity\<close>.\<close>

fun jmax :: "jsnum \<Rightarrow> jsnum \<Rightarrow> jsnum" where
  "jmax (Fin a) (Fin b) = Fin (max a b)"
| "jmax NaN _ = NaN"
| "jmax _ NaN = NaN"
| "jmax PInf _ = PInf"
| "jmax _ PInf = PInf"
| "jmax NInf b = b"
| "jmax a NInf = a"

definition math_min :: "real list \<Rightarrow> jsnum" where
  "math_min xs = foldl jmin PInf (map Fin xs)"

definition math_max :: "real list \<Rightarrow> jsnum" where
  "math_max xs = foldl jmax NInf (map Fin xs)"

text \<open>The \<^verbatim>\<open>while\<close> loop of \<^verbatim>\<open>isolationDepth\<close>: each round draws one random number.\<close>

function isolationDepth_loop :: "real \<Rightarrow> int \<Rightarrow> real list \<Rightarrow> nat \<Rightarrow> host \<Rightarrow> nat \<times> host" where
  "isolationDepth_loop v maxDepth subs depth h =
     (if length subs > 1 \<and> int depth < maxDepth then
        let min' = math_min subs;
            max' = math_max subs;
            (r, h') = math_random h;
            split' = jadd min' (jmul (Fin r) (jsub max' min'));
            subs' = (if jlt (Fin v) split' then filter (\<lambda>x. jlt (Fin x) split') subs
                     else filter (\<lambda>x. jge (Fin x) split') subs)
        in isolationDepth_loop v maxDepth subs' (Suc depth) h'
      else (depth, h))"
  by pat_completeness auto
termination
  by (relation "measure (\<lambda>(v, maxDepth, subs, depth, h). nat (maxDepth - int depth))") auto

text \<open>\<^verbatim>\<open>private static isolationDepth(value, data)\<close>. The bound
  \<^verbatim>\<open>Math.ceil(Math.log2(data.length))\<close> is only read when the loop is entered, that is
  when \<open>data\<close> has two elements at least, where the logarithm is finite. The bound is
  an integer, taken here from the exact logarithm.\<close>

definition isolationDepth :: "real \<Rightarrow> real list \<Rightarrow> host \<Rightarrow> nat \<times> host" where
  "isolationDepth v data h =
     isolationDepth_loop v \<lceil>log 2 (real (length data))\<rceil> data 0 h"

text \<open>\<^verbatim>\<open>private static expectedIsolationDepth(n)\<close>.\<close>

definition expectedIsolationDepth :: "nat \<Rightarrow> jsnum" where
  "expectedIsolationDepth n =
     (if n \<le> 1 then Fin 0
      else jsub (jmul (Fin 2) (jadd (jlog (Fin (real n - 1))) (lit 0.5772156649)))
                (jdiv (jmul (Fin 2) (Fin (real n - 1))) (Fin (real n))))"

text \<open>The \<^verbatim>\<open>for\<close> loop of \<^verbatim>\<open>isolationForest\<close>, by the number of trees still to grow.\<close>

fun isolationForest_loop :: "real \<Rightarrow> real list \<Rightarrow> nat \<Rightarrow> nat list \<Rightarrow> host \<Rightarrow> nat list \<times> host" where
  "isolationForest_loop v data 0 depths h = (depths, h)"
| "isolationForest_loop v data (Suc n) depths h =
     (let (depth, h') = isolationDepth v data h
      in isolationForest_loop v data n (depths @ [depth]) h')"

text \<open>\<^verbatim>\<open>static isolationForest(value, data, numTrees = 100)\<close>.\<close>

definition isolationForest :: "real \<Rightarrow> real list \<Rightarrow> nat \<Rightarrow> host \<Rightarrow> DetectorResult \<times> host" where
  "isolationForest v data numTrees h =
     (if length data < 10 then (\<lparr>isAnomaly = False, score = Fin 0\<rparr>, h)
      else
        let (depths, h') = isolationForest_loop v data numTrees [] h;
            avgDepth = jdiv (foldl (\<lambda>a b. jadd a (Fin (real b))) (Fin 0) depths)
                            (Fin (real (length depths)));
            expectedDepth = expectedIsolationDepth (length data);
            anomalyScore = jpow2 (jdiv (jneg avgDepth) expectedDepth)
        in (\<lparr>isAnomaly = jgt anomalyScore (lit 0.6), score = anomalyScore\<rparr>, h'))"

text \<open>The objects \<^verbatim>\<open>{ value, distance, index }\<close> that \<^verbatim>\<open>lof\<close> sorts.\<close>

record Neighbor =
  nb_value :: real
  distance :: jsnum
  index :: nat

text \<open>\<^verbatim>\<open>static lof(value, data, k = 5)\<close>. With \<open>k = 0\<close> the last neighbour does not
  exist and reading its distance raises.\<close>

definition lof :: "real \<Rightarrow> real list \<Rightarrow> nat \<Rightarrow> error + DetectorResult" where
  "lof v data k =
     (if length data < k + 1 then Inr \<lparr>isAnomaly = False, score = Fin 0\<rparr>
      else
        let distances =
              take k (sort_by (\<lambda>a b. jsub (distance a) (distance b))
                (map (\<lambda>(d, i). \<lparr>nb_value = d, distance = jabs (jsub (Fin d) (Fin v)), index = i\<rparr>)
                     (zip data [0..<length data])));
            avgDistance = jdiv (foldl (\<lambda>sum d. jadd sum (distance d)) (Fin 0) distances)
                               (Fin (real k))
        in if distances = [] then Inl TypeError
           else
             let lofScore = jdiv avgDistance (jadd (distance (last distances)) (lit 0.0001))
             in Inr \<lparr>isAnomaly = jgt lofScore (Fin 1.5),
                     score = jmin (jdiv lofScore (Fin 2)) (Fin 1)\<rparr>)"

section \<open>EnterpriseAnomalyDetector\<close>

subsection \<open>Data\<close>

record DataPoint =
  timestamp :: int
  "value" :: real
  metric :: string
  dimensions :: "(string \<rightharpoonup> string) option"

datatype Sensitivity = S_low | S_medium | S_high | S_adaptive

datatype EnsembleWeighting = W_performance | W_confidence | W_adaptive

text \<open>The algorithm names are strings: \<^verbatim>\<open>shouldRunAlgorithm\<close> looks a name up with
  \<^verbatim>\<open>includes\<close>, whatever the name is.\<close>

record AdvancedDetectorConfig =
  algorithms :: "string list"
  sensitivity :: Sensitivity
  contextWindow :: real
  seasonalityPeriods :: "real list"
  adaptiveLearning :: bool
  ensembleWeighting :: EnsembleWeighting
  minDataPoints :: int

datatype Severity = info | warning | critical

record AlgorithmResult = DetectorResult +
  name :: string
  contribution :: jsnum
  executionTime :: int

record Explanation =
  reason :: string
  expectedRange :: "jsnum \<times> jsnum"
  actualValue :: real
  historicalContext :: string
  seasonalPattern :: "string option"
  deviation :: jsnum

record Metadata =
  processingTimeMs :: int
  dataPointsAnalyzed :: nat
  modelVersion :: string
  algorithm :: string

text \<open>\<^verbatim>\<open>Pick<AnomalyResult, 'isAnomaly' | 'confidence' | 'severity' | 'score' | 'algorithms'>\<close>,
  the result of \<^verbatim>\<open>ensembleVote\<close>, and \<^verbatim>\<open>AnomalyResult\<close>, which adds the explanation and
  the metadata to it.\<close>

record EnsembleResult = DetectorResult +
  confidence :: jsnum
  severity :: Severity
  algorithms :: "AlgorithmResult list"

record AnomalyResult = EnsembleResult +
  explanation :: Explanation
  metadata :: Metadata

record PerformanceMetrics =
  accuracy :: real
  precision :: real
  recall :: real
  f1Score :: real
  falsePositiveRate :: real
  lastUpdated :: int

text \<open>The private fields of the class.\<close>

record EnterpriseAnomalyDetector =
  config :: AdvancedDetectorConfig
  performance :: "string \<rightharpoonup> PerformanceMetrics"
  modelVersion :: string

text \<open>The constructor: the defaults, overridden by the fields of the partial
  configuration the caller gives (a function on configurations; the identity when
  the caller gives none).\<close>

definition defaultConfig :: AdvancedDetectorConfig where
  "defaultConfig =
     \<lparr>AdvancedDetectorConfig.algorithms = [''ensemble''],
      sensitivity = S_medium,
      contextWindow = 168,
      seasonalityPeriods = [24, 168],
      adaptiveLearning = True,
      ensembleWeighting = W_adaptive,
      minDataPoints = 30\<rparr>"

definition newDetector :: "(AdvancedDetectorConfig \<Rightarrow> AdvancedDetectorConfig) \<Rightarrow> EnterpriseAnomalyDetector" where
  "newDetector overrides =
     \<lparr>config = overrides defaultConfig,
      performance = Map.empty,
      modelVersion = ''1.0.0''\<rparr>"

text \<open>\<^verbatim>\<open>export const detector = new EnterpriseAnomalyDetector()\<close>.\<close>

definition detector :: EnterpriseAnomalyDetector where
  "detector = newDetector (\<lambda>c. c)"

subsection \<open>Helper methods\<close>

definition shouldRunAlgorithm :: "EnterpriseAnomalyDetector \<Rightarrow> string \<Rightarrow> bool" where
  "shouldRunAlgorithm this algorithm' =
     (''ensemble'' \<in> set (AdvancedDetectorConfig.algorithms (config this))
      \<or> algorithm' \<in> set (AdvancedDetectorConfig.algorithms (config this)))"

definition calculateAlgorithmWeights :: "EnterpriseAnomalyDetector \<Rightarrow> AlgorithmResult list \<Rightarrow> jsnum list" where
  "calculateAlgorithmWeights this results =
     (if ensembleWeighting (config this) = W_performance then
        map (\<lambda>r. case performance this (name r) of
                    Some perf \<Rightarrow> Fin (f1Score perf)
                  | None \<Rightarrow> Fin 1) results
      else if ensembleWeighting (config this) = W_confidence then
        map (\<lambda>r. jadd (score r) (lit 0.1)) results
      else map (\<lambda>r. Fin 1) results)"

definition getThreshold :: "EnterpriseAnomalyDetector \<Rightarrow> jsnum" where
  "getThreshold this =
     (case sensitivity (config this) of
        S_low \<Rightarrow> lit 0.7 | S_medium \<Rightarrow> lit 0.6 | S_high \<Rightarrow> lit 0.5 | S_adaptive \<Rightarrow> lit 0.6)"

definition getSensitivityThreshold :: "EnterpriseAnomalyDetector \<Rightarrow> real" where
  "getSensitivityThreshold this =
     (case sensitivity (config this) of
        S_low \<Rightarrow> 4 | S_medium \<Rightarrow> 3 | S_high \<Rightarrow> 2 | S_adaptive \<Rightarrow> 3)"

definition determineSeverity :: "jsnum \<Rightarrow> jsnum \<Rightarrow> Severity" where
  "determineSeverity score' confidence' =
     (let combinedScore = jmul score' confidence'
      in if jgt combinedScore (lit 0.8) then critical
         else if jgt combinedScore (lit 0.6) then warning
         else info)"

definition createNonAnomalyResult :: "EnterpriseAnomalyDetector \<Rightarrow> DataPoint \<Rightarrow> string \<Rightarrow> int \<Rightarrow> AnomalyResult" where
  "createNonAnomalyResult this dataPoint reason' processingTime =
     \<lparr>isAnomaly = False,
      score = Fin 0,
      confidence = Fin 0,
      severity = info,
      algorithms = [],
      explanation =
        \<lparr>reason = reason',
         expectedRange = (Fin 0, Fin 0),
         actualValue = value dataPoint,
         historicalContext = reason',
         seasonalPattern = None,
         deviation = Fin 0\<rparr>,
      metadata =
        \<lparr>processingTimeMs = processingTime,
         dataPointsAnalyzed = 0,
         modelVersion = modelVersion this,
         algorithm = ''none''\<rparr>\<rparr>"

subsection \<open>Ensemble voting\<close>

text \<open>\<^verbatim>\<open>private ensembleVote(results)\<close>. The \<^verbatim>\<open>forEach\<close> loop is a left fold over the
  results with their indices, from \<^verbatim>\<open>weightedScore = 0\<close> and \<^verbatim>\<open>totalWeight = 0\<close>.\<close>

definition ensembleVote :: "EnterpriseAnomalyDetector \<Rightarrow> AlgorithmResult list \<Rightarrow> EnsembleResult" where
  "ensembleVote this results =
     (if length results = 0 then
        \<lparr>isAnomaly = False, score = Fin 0, confidence = Fin 0, severity = info, algorithms = []\<rparr>
      else
        let weights = calculateAlgorithmWeights this results;
            (weightedScore, totalWeight) =
              foldl (\<lambda>(weightedScore, totalWeight) (result, i).
                       let weight = js_nth weights (int i)
                       in (jadd weightedScore (jmul (score result) weight),
                           jadd totalWeight weight))
                    (Fin 0, Fin 0) (zip results [0..<length results]);
            normalizedScore = jdiv weightedScore totalWeight;
            threshold = getThreshold this;
            isAnomaly' = jgt normalizedScore threshold;
            agreement = jdiv (Fin (real (length (filter isAnomaly results))))
                             (Fin (real (length results)));
            confidence = (if isAnomaly' then jmul agreement normalizedScore
                          else jmul (jsub (Fin 1) agreement) (jsub (Fin 1) normalizedScore));
            severity = determineSeverity normalizedScore confidence;
            algorithmsWithContribution =
              map (\<lambda>(r, i). r\<lparr>contribution := jdiv (jmul (score r) (js_nth weights (int i))) weightedScore\<rparr>)
                  (zip results [0..<length results])
        in \<lparr>isAnomaly = isAnomaly',
            score = normalizedScore,
            confidence = confidence,
            severity = severity,
            algorithms = algorithmsWithContribution\<rparr>)"

subsection \<open>Algorithm implementations\<close>

text \<open>Each runner reads the clock before and after the detector. \<^verbatim>\<open>mad\<close>, \<^verbatim>\<open>iqr\<close>,
  \<^verbatim>\<open>isolationForest\<close> and \<^verbatim>\<open>lof\<close> are called without their last argument, which
  then has its default: 3.5, 1.5, 100 and 5.\<close>

definition runZScore :: "EnterpriseAnomalyDetector \<Rightarrow> real \<Rightarrow> real list \<Rightarrow> host \<Rightarrow> AlgorithmResult \<times> host" where
  "runZScore this v data h =
     (let (start, h1) = date_now h;
          threshold = getSensitivityThreshold this;
          result = zScore v data threshold;
          (end', h2) = date_now h1
      in (\<lparr>isAnomaly = isAnomaly result, score = score result,
           name = ''zscore'', contribution = Fin 0, executionTime = end' - start\<rparr>, h2))"

definition runMAD :: "EnterpriseAnomalyDetector \<Rightarrow> real \<Rightarrow> real list \<Rightarrow> host \<Rightarrow> AlgorithmResult \<times> host" where
  "runMAD this v data h =
     (let (start, h1) = date_now h;
          result = mad v data 3.5;
          (end', h2) = date_now h1
      in (\<lparr>isAnomaly = isAnomaly result, score = score result,
           name = ''mad'', contribution = Fin 0, executionTime = end' - start\<rparr>, h2))"

definition runIQR :: "EnterpriseAnomalyDetector \<Rightarrow> real \<Rightarrow> real list \<Rightarrow> host \<Rightarrow> AlgorithmResult \<times> host" where
  "runIQR this v data h =
     (let (start, h1) = date_now h;
          result = iqr v data 1.5;
          (end', h2) = date_now h1
      in (\<lparr>isAnomaly = isAnomaly result, score = score result,
           name = ''iqr'', contribution = Fin 0, executionTime = end' - start\<rparr>, h2))"

definition runIsolationForest :: "EnterpriseAnomalyDetector \<Rightarrow> real \<Rightarrow> real list \<Rightarrow> host \<Rightarrow> AlgorithmResult \<times> host" where
  "runIsolationForest this v data h =
     (let (start, h1) = date_now h;
          (result, h2) = isolationForest v data 100 h1;
          (end', h3) = date_now h2
      in (\<lparr>isAnomaly = isAnomaly result, score = score result,
           name = ''isolation-forest'', contribution = Fin 0, executionTime = end' - start\<rparr>, h3))"

definition runLOF :: "EnterpriseAnomalyDetector \<Rightarrow> real \<Rightarrow> real list \<Rightarrow> host \<Rightarrow> (error + AlgorithmResult) \<times> host" where
  "runLOF this v data h =
     (let (start, h1) = date_now h
      in case lof v data 5 of
           Inl e \<Rightarrow> (Inl e, h1)
         | Inr result \<Rightarrow>
             let (end', h2) = date_now h1
             in (Inr \<lparr>isAnomaly = isAnomaly result, score = score result,
                      name = ''lof'', contribution = Fin 0, executionTime = end' - start\<rparr>, h2))"

subsection \<open>Explanation\<close>

text \<open>The letter sigma of the reason text, in UTF-8.\<close>

definition sigma :: string where
  "sigma = [CHR 0xCF, CHR 0x83]"

text \<open>\<^verbatim>\<open>private generateExplanation(value, data, result, historicalData)\<close>. On an empty
  \<open>data\<close> the minimum \<^verbatim>\<open>sorted[0]\<close> is \<^verbatim>\<open>undefined\<close> and \<^verbatim>\<open>min.toFixed\<close> raises, after
  the reason has been built.\<close>

definition generateExplanation ::
  "NumberFormat \<Rightarrow> real \<Rightarrow> real list \<Rightarrow> EnsembleResult \<Rightarrow> DataPoint list \<Rightarrow> error + Explanation" where
  "generateExplanation fmt v data result historicalData =
     (let mean = jdiv (foldl (\<lambda>a b. jadd a (Fin b)) (Fin 0) data) (Fin (real (length data)));
          stdDev = jsqrt (jdiv (foldl (\<lambda>a b. jadd a (jsquare (jsub (Fin b) mean))) (Fin 0) data)
                               (Fin (real (length data))));
          deviation = (if jgt stdDev (Fin 0) then jdiv (jsub (Fin v) mean) stdDev else Fin 0);
          sorted = sort data;
          expectedRange = (jsub mean (jmul (Fin 2) stdDev), jadd mean (jmul (Fin 2) stdDev));
          reason0 = (if isAnomaly result
                     then ''Value '' @ toFixed fmt (Fin v) 2 @ '' is significantly different from historical patterns.''
                     else ''Value '' @ toFixed fmt (Fin v) 2 @ '' is within normal range.'');
          reason = (if isAnomaly result then
                      (if jgt (Fin v) mean
                       then reason0 @ '' It is '' @ toFixed fmt deviation 1 @ sigma @ '' above the mean.''
                       else reason0 @ '' It is '' @ toFixed fmt (jabs deviation) 1 @ sigma @ '' below the mean.'')
                    else reason0)
      in if sorted = [] then Inl TypeError
         else
           let min' = hd sorted;
               max' = last sorted;
               historicalContext =
                 ''Based on '' @ toString fmt (Fin (real (length data))) @ '' historical data points. ''
                 @ ''Mean: '' @ toFixed fmt mean 2 @ '', StdDev: '' @ toFixed fmt stdDev 2 @ '', ''
                 @ ''Range: ['' @ toFixed fmt (Fin min') 2 @ '', '' @ toFixed fmt (Fin max') 2 @ '']''
           in Inr \<lparr>reason = reason,
                   expectedRange = expectedRange,
                   actualValue = v,
                   historicalContext = historicalContext,
                   seasonalPattern = None,
                   deviation = jabs deviation\<rparr>)"

subsection \<open>Main detection method\<close>

text \<open>\<^verbatim>\<open>async detect(dataPoint, historicalData)\<close>. The result is \<open>Inl\<close> when the promise
  is rejected. The calls to the tracer and to the metrics collector do not touch the
  result and are left out; the clock readings are those of \<^verbatim>\<open>detect\<close> and of the
  runners. An exception leaves the \<^verbatim>\<open>try\<close> block through \<^verbatim>\<open>catch\<close>, which throws it
  again.\<close>

definition detect ::
  "NumberFormat \<Rightarrow> EnterpriseAnomalyDetector \<Rightarrow> DataPoint \<Rightarrow> DataPoint list \<Rightarrow> host
     \<Rightarrow> (error + AnomalyResult) \<times> host" where
  "detect fmt this dataPoint historicalData h =
     (let (startTime, h0) = date_now h
      in if int (length historicalData) < minDataPoints (config this) then
           let (t, h1) = date_now h0
           in (Inr (createNonAnomalyResult this dataPoint ''Insufficient historical data'' (t - startTime)), h1)
         else
           let values = map value historicalData;
               currentValue = value dataPoint;
               (rs1, h1) = (if shouldRunAlgorithm this ''zscore''
                            then let (result, h') = runZScore this currentValue values h0 in ([] @ [result], h')
                            else ([], h0));
               (rs2, h2) = (if shouldRunAlgorithm this ''mad''
                            then let (result, h') = runMAD this currentValue values h1 in (rs1 @ [result], h')
                            else (rs1, h1));
               (rs3, h3) = (if shouldRunAlgorithm this ''iqr''
                            then let (result, h') = runIQR this currentValue values h2 in (rs2 @ [result], h')
                            else (rs2, h2));
               (rs4, h4) = (if shouldRunAlgorithm this ''isolation-forest''
                            then let (result, h') = runIsolationForest this currentValue values h3 in (rs3 @ [result], h')
                            else (rs3, h3));
               (rs5, h5) = (if shouldRunAlgorithm this ''lof''
                            then (case runLOF this currentValue values h4 of
                                    (Inl e, h') \<Rightarrow> (Inl e, h')
                                  | (Inr result, h') \<Rightarrow> (Inr (rs4 @ [result]), h'))
                            else (Inr rs4, h4))
           in case rs5 of
                Inl e \<Rightarrow> (Inl e, h5)
              | Inr algorithmResults \<Rightarrow>
                  let ensembleResult = ensembleVote this algorithmResults
                  in case generateExplanation fmt currentValue values ensembleResult historicalData of
                       Inl e \<Rightarrow> (Inl e, h5)
                     | Inr explanation' \<Rightarrow>
                         let (t, h6) = date_now h5;
                             processingTime = t - startTime
                         in (Inr \<lparr>isAnomaly = isAnomaly ensembleResult,
                                  score = score ensembleResult,
                                  confidence = confidence ensembleResult,
                                  severity = severity ensembleResult,
                                  algorithms = algorithms ensembleResult,
                                  explanation = explanation',
                                  metadata =
                                    \<lparr>processingTimeMs = processingTime,
                                     dataPointsAnalyzed = length historicalData,
                                     modelVersion = modelVersion this,
                                     algorithm = ''ensemble''\<rparr>\<rparr>, h6))"

section \<open>Notions of the specification and sample inputs\<close>

text \<open>The sum of a list of numbers in the arithmetic of the language, from the left:
  \<open>((0 + x\<^sub>1) + x\<^sub>2) + \<dots>\<close>, as \<^verbatim>\<open>reduce\<close> and \<^verbatim>\<open>forEach\<close> accumulate it. The
  specification writes it \<open>\<Sigma>\<close>.\<close>

definition jsum :: "jsnum list \<Rightarrow> jsnum" where
  "jsum xs = foldl jadd (Fin 0) xs"



text \<open>The same two in the arithmetic of the language: the sum from the left divided
  by the length, and the square root of the mean of the squared differences.\<close>

definition jsMean :: "real list \<Rightarrow> jsnum" where
  "jsMean xs = jdiv (jsum (map Fin xs)) (Fin (real (length xs)))"

definition jsVariance :: "real list \<Rightarrow> jsnum" where
  "jsVariance xs =
     jdiv (jsum (map (\<lambda>x. jsquare (jsub (Fin x) (jsMean xs))) xs)) (Fin (real (length xs)))"

definition jsStdDev :: "real list \<Rightarrow> jsnum" where
  "jsStdDev xs = jsqrt (jsVariance xs)"


text \<open>Concrete inputs, on which the theorems below are instantiated.\<close>

definition samplePoint :: "real \<Rightarrow> DataPoint" where
  "samplePoint x = \<lparr>timestamp = 0, value = x, metric = ''latency'', dimensions = None\<rparr>"

definition sampleFormat :: NumberFormat where
  "sampleFormat = \<lparr>toFixed = (\<lambda>x digits. ''#''), toString = (\<lambda>x. ''#'')\<rparr>"

definition sampleHost :: host where
  "sampleHost = \<lparr>clock = (\<lambda>n. int n), rng = (\<lambda>n. 0), ticks = 0, draws = 0\<rparr>"

definition sampleResults :: "AlgorithmResult list" where
  "sampleResults =
     [\<lparr>isAnomaly = True, score = Fin 1, name = ''zscore'', contribution = Fin 0, executionTime = 0\<rparr>,
      \<lparr>isAnomaly = False, score = Fin (1 / 2), name = ''mad'', contribution = Fin 0, executionTime = 0\<rparr>]"

text \<open>What \<^verbatim>\<open>ensembleVote\<close> reads of a result: its name, its flag and its score; and the
  same triple for the result of a detector that ran under a given name.\<close>

definition core :: "AlgorithmResult \<Rightarrow> string \<times> bool \<times> jsnum" where
  "core r = (name r, isAnomaly r, score r)"

definition reading :: "string \<Rightarrow> 'a DetectorResult_scheme \<Rightarrow> string \<times> bool \<times> jsnum" where
  "reading n d = (n, isAnomaly d, score d)"

text \<open>The specification's "run exactly the enabled detectors": the readings of the
  detectors that the configuration enables, in the order \<^verbatim>\<open>detect\<close> runs them. The
  results of the isolation forest and of the neighbour detector are parameters.\<close>

definition enabledReadings ::
  "EnterpriseAnomalyDetector \<Rightarrow> real \<Rightarrow> real list \<Rightarrow> DetectorResult \<Rightarrow> DetectorResult
     \<Rightarrow> (string \<times> bool \<times> jsnum) list" where
  "enabledReadings this v data forest neighbours =
     (if shouldRunAlgorithm this ''zscore''
      then [reading ''zscore'' (zScore v data (getSensitivityThreshold this))] else [])
     @ (if shouldRunAlgorithm this ''mad'' then [reading ''mad'' (mad v data 3.5)] else [])
     @ (if shouldRunAlgorithm this ''iqr'' then [reading ''iqr'' (iqr v data 1.5)] else [])
     @ (if shouldRunAlgorithm this ''isolation-forest'' then [reading ''isolation-forest'' forest] else [])
     @ (if shouldRunAlgorithm this ''lof'' then [reading ''lof'' neighbours] else [])"

text \<open>The fields of a result that the specification requires to be reproducible.\<close>

definition verdict :: "AnomalyResult \<Rightarrow> bool \<times> jsnum \<times> jsnum \<times> Severity \<times> Explanation" where
  "verdict r = (isAnomaly r, score r, confidence r, severity r, explanation r)"

text \<open>More concrete inputs: a constant history of 30 points, and a second host, with
  another clock and other random draws.\<close>

definition history30 :: "real \<Rightarrow> DataPoint list" where
  "history30 c = replicate 30 (samplePoint c)"

definition otherHost :: host where
  "otherHost = \<lparr>clock = (\<lambda>n. 7 * int n + 3), rng = (\<lambda>n. 1 / 2), ticks = 0, draws = 0\<rparr>"




text \<open>A history of 15 points at 1 and 15 at 3 (mean 2, standard deviation 1, MAD 1,
  quartiles 1 and 3), and a detector of high sensitivity.\<close>

definition twoLevelHistory :: "DataPoint list" where
  "twoLevelHistory = replicate 15 (samplePoint 1) @ replicate 15 (samplePoint 3)"

definition highSensitivity :: EnterpriseAnomalyDetector where
  "highSensitivity = newDetector (\<lambda>c. c\<lparr>sensitivity := S_high\<rparr>)"


section \<open>Rounding\<close>

lemma rhe_bounds: "x - 1 / 2 \<le> of_int (rhe x)" "of_int (rhe x) \<le> x + 1 / 2"
  unfolding rhe_def Let_def by (auto; linarith)+

lemma rhe_of_int [simp]: "rhe (of_int n) = n"
  by (simp add: rhe_def)

lemma rhe_mono:
  assumes "x \<le> y"
  shows "rhe x \<le> rhe y"
proof (rule ccontr)
  assume "\<not> rhe x \<le> rhe y"
  then have lt: "rhe y + 1 \<le> rhe x" by simp
  have a: "real_of_int (rhe x) \<le> x + 1 / 2" by (rule rhe_bounds)
  have b: "y - 1 / 2 \<le> real_of_int (rhe y)" by (rule rhe_bounds)
  from lt have c: "real_of_int (rhe y) + 1 \<le> real_of_int (rhe x)" by linarith
  from a b c assms have "x = y" by linarith
  with lt show False by simp
qed

lemma ilog2_bounds:
  assumes "0 < a"
  shows "2 powi (ilog2 a) \<le> a" "a < 2 powi (ilog2 a + 1)"
proof -
  have "2 powi (ilog2 a) \<le> a \<and> a < 2 powi (ilog2 a + 1)"
  proof (cases "1 \<le> a")
    case True
    define n where "n = nat \<lfloor>a\<rfloor>"
    define k where "k = floorlog 2 n"
    have n: "0 < n" "real n \<le> a" "a < real n + 1"
      using True by (simp_all add: n_def)
    have b: "2 ^ (k - 1) \<le> n" "n < 2 ^ k"
      using floorlog_bounds[of n 2] n(1) by (simp_all add: k_def)
    have k: "0 < k" using b(2) n(1) by (cases k) auto
    have e: "ilog2 a = int k - 1" using True by (simp add: ilog2_def n_def k_def)
    have p1: "(2::real) powi (int k - 1) = 2 ^ (k - 1)"
      using k by (simp add: power_int_def nat_diff_distrib')
    have p2: "(2::real) powi (int k - 1 + 1) = 2 ^ k"
      by (simp add: power_int_def)
    have "real (2 ^ (k - 1)) \<le> real n" using b(1) by (rule of_nat_mono)
    then have "(2::real) ^ (k - 1) \<le> real n" by (simp only: of_nat_power of_nat_numeral)
    then have l: "(2::real) ^ (k - 1) \<le> a" using n(2) by linarith
    have "n + 1 \<le> 2 ^ k" using b(2) by simp
    then have "real (n + 1) \<le> real (2 ^ k)" by (rule of_nat_mono)
    then have "real n + 1 \<le> (2::real) ^ k" by (simp only: of_nat_power of_nat_numeral of_nat_add of_nat_1)
    then have u: "a < (2::real) ^ k" using n(3) by linarith
    show ?thesis unfolding e p1 p2 using l u by simp
  next
    case False
    define m where "m = nat (\<lceil>1 / a\<rceil> - 1)"
    define k where "k = floorlog 2 m"
    have inv: "1 < 1 / a" using False assms by simp
    then have c: "2 \<le> \<lceil>1 / a\<rceil>" by linarith
    have m: "0 < m" "real m < 1 / a" "1 / a \<le> real m + 1"
      using c by (simp_all add: m_def) linarith+
    have b: "2 ^ (k - 1) \<le> m" "m < 2 ^ k"
      using floorlog_bounds[of m 2] m(1) by (simp_all add: k_def)
    have k: "0 < k" using b(2) m(1) by (cases k) auto
    have e: "ilog2 a = - int k" using False by (simp add: ilog2_def m_def k_def)
    have p1: "(2::real) powi (- int k) = 1 / 2 ^ k"
      by (simp add: power_int_def field_simps)
    have p2: "(2::real) powi (- int k + 1) = 1 / 2 ^ (k - 1)"
      using k by (simp add: power_int_def nat_diff_distrib' field_simps)
    have "m + 1 \<le> 2 ^ k" using b(2) by simp
    then have "real (m + 1) \<le> real (2 ^ k)" by (rule of_nat_mono)
    then have "real m + 1 \<le> (2::real) ^ k" by (simp only: of_nat_power of_nat_numeral of_nat_add of_nat_1)
    then have "1 / a \<le> 2 ^ k" using m(3) by linarith
    then have l: "1 / 2 ^ k \<le> a" using assms by (simp add: field_simps)
    have "real (2 ^ (k - 1)) \<le> real m" using b(1) by (rule of_nat_mono)
    then have "(2::real) ^ (k - 1) \<le> real m" by (simp only: of_nat_power of_nat_numeral)
    then have "(2::real) ^ (k - 1) < 1 / a" using m(2) by linarith
    then have u: "a < 1 / 2 ^ (k - 1)" using assms by (simp add: field_simps)
    show ?thesis unfolding e p1 p2 using l u by simp
  qed
  then show "2 powi (ilog2 a) \<le> a" "a < 2 powi (ilog2 a + 1)" by simp_all
qed

lemma binary64_pos:
  assumes "0 < x"
  shows "binary64 x =
     (if 1024 \<le> expo x \<or> (expo x = 1023 \<and> mant x = 9007199254740992) then PInf
      else Fin (of_int (mant x) * 2 powi (expo x - 52)))"
  using assms by (simp add: binary64_def Let_def)

lemma binary64_neg: "binary64 (- x) = jneg (binary64 x)"
  by (simp add: binary64_def Let_def)

lemma binary64_zero [simp]: "binary64 0 = Fin 0"
  by (simp add: binary64_def)

lemma powi_split53: "(2::real) powi (e + 1) = 9007199254740992 * 2 powi (e - 52)"
proof -
  have "(2::real) powi (e + 1) = 2 powi (53 + (e - 52))"
    by (rule arg_cong[where f = "\<lambda>i. 2 powi i"]) simp
  also have "\<dots> = 2 powi 53 * 2 powi (e - 52)" by (rule power_int_add) simp
  also have "(2::real) powi 53 = 9007199254740992" by (simp add: power_int_def)
  finally show ?thesis .
qed

lemma powi_split52: "(2::real) powi e = 4503599627370496 * 2 powi (e - 52)"
proof -
  have "(2::real) powi e = 2 powi (52 + (e - 52))"
    by (rule arg_cong[where f = "\<lambda>i. 2 powi i"]) simp
  also have "\<dots> = 2 powi 52 * 2 powi (e - 52)" by (rule power_int_add) simp
  also have "(2::real) powi 52 = 4503599627370496" by (simp add: power_int_def)
  finally show ?thesis .
qed

lemma expo_mono:
  assumes "0 < a" "a \<le> b"
  shows "expo a \<le> expo b"
proof -
  have b: "0 < b" using assms by simp
  have "ilog2 a \<le> ilog2 b"
  proof (rule ccontr)
    assume "\<not> ilog2 a \<le> ilog2 b"
    then have "ilog2 b + 1 \<le> ilog2 a" by simp
    then have "(2::real) powi (ilog2 b + 1) \<le> 2 powi (ilog2 a)"
      by (intro power_int_increasing) simp_all
    with ilog2_bounds[OF assms(1)] ilog2_bounds[OF b] assms(2) show False by linarith
  qed
  then show ?thesis by (simp add: expo_def)
qed

lemma mant_le:
  assumes "0 < a"
  shows "mant a \<le> 9007199254740992"
proof -
  have u: "(0::real) < 2 powi (expo a - 52)" by simp
  have "ilog2 a + 1 \<le> expo a + 1" by (simp add: expo_def)
  then have "(2::real) powi (ilog2 a + 1) \<le> 2 powi (expo a + 1)"
    by (intro power_int_increasing) simp_all
  then have "a \<le> 2 powi (expo a + 1)" using ilog2_bounds(2)[OF assms] by linarith
  also have "\<dots> = 9007199254740992 * 2 powi (expo a - 52)"
    by (rule powi_split53)
  finally have "a / 2 powi (expo a - 52) \<le> 9007199254740992"
    using u by (simp add: field_simps)
  then have "a / 2 powi (expo a - 52) \<le> real_of_int 9007199254740992"
    by simp
  then have "rhe (a / 2 powi (expo a - 52)) \<le> rhe (real_of_int 9007199254740992)"
    by (rule rhe_mono)
  then show ?thesis unfolding mant_def by (simp only: rhe_of_int)
qed

lemma mant_ge:
  assumes "0 < a" "- 1022 \<le> ilog2 a"
  shows "4503599627370496 \<le> mant a"
proof -
  have e: "expo a = ilog2 a" using assms(2) by (simp add: expo_def)
  have u: "(0::real) < 2 powi (expo a - 52)" by simp
  have "4503599627370496 * 2 powi (expo a - 52) = (2::real) powi (ilog2 a)"
    unfolding e by (rule powi_split52[symmetric])
  also have "\<dots> \<le> a" by (rule ilog2_bounds(1)[OF assms(1)])
  finally have "4503599627370496 \<le> a / 2 powi (expo a - 52)"
    using u by (simp add: field_simps)
  then have "real_of_int 4503599627370496 \<le> a / 2 powi (expo a - 52)"
    by simp
  then have "rhe (real_of_int 4503599627370496) \<le> rhe (a / 2 powi (expo a - 52))"
    by (rule rhe_mono)
  then show ?thesis unfolding mant_def by (simp only: rhe_of_int)
qed

lemma mant_nonneg:
  assumes "0 < a"
  shows "0 \<le> mant a"
proof -
  have "0 \<le> a / 2 powi (expo a - 52)" using assms by simp
  then have "rhe (real_of_int 0) \<le> rhe (a / 2 powi (expo a - 52))"
    by (intro rhe_mono) simp
  then show ?thesis unfolding mant_def by (simp only: rhe_of_int)
qed

lemma mant_mono:
  assumes "0 < a" "a \<le> b" "expo a = expo b"
  shows "mant a \<le> mant b"
  unfolding mant_def assms(3)
  by (intro rhe_mono divide_right_mono assms(2)) simp

lemma val_mono:
  assumes "0 < a" "a \<le> b"
  shows "real_of_int (mant a) * 2 powi (expo a - 52) \<le> real_of_int (mant b) * 2 powi (expo b - 52)"
proof (cases "expo a = expo b")
  case True
  have "real_of_int (mant a) \<le> real_of_int (mant b)"
    using mant_mono[OF assms True] by simp
  then show ?thesis unfolding True by (intro mult_right_mono) simp_all
next
  case False
  have b: "0 < b" using assms by simp
  have lt: "expo a + 1 \<le> expo b" using expo_mono[OF assms] False by simp
  then have "- 1022 < expo b" by (simp add: expo_def)
  then have i: "- 1022 \<le> ilog2 b" by (simp add: expo_def max_def split: if_splits)
  have "real_of_int (mant a) * 2 powi (expo a - 52) \<le> real_of_int 9007199254740992 * 2 powi (expo a - 52)"
    using mant_le[OF assms(1)] by (intro mult_right_mono) simp_all
  also have "\<dots> = 2 powi (expo a + 1)" by (simp add: powi_split53[of "expo a"])
  also have "\<dots> \<le> 2 powi (expo b)" using lt by (intro power_int_increasing) simp_all
  also have "\<dots> = real_of_int 4503599627370496 * 2 powi (expo b - 52)"
    by (simp add: powi_split52[of "expo b"])
  also have "\<dots> \<le> real_of_int (mant b) * 2 powi (expo b - 52)"
    using mant_ge[OF b i] by (intro mult_right_mono) simp_all
  finally show ?thesis .
qed

lemma overflow_mono:
  assumes "0 < a" "a \<le> b"
      and "1024 \<le> expo a \<or> (expo a = 1023 \<and> mant a = 9007199254740992)"
  shows "1024 \<le> expo b \<or> (expo b = 1023 \<and> mant b = 9007199254740992)"
proof (cases "1024 \<le> expo b")
  case True
  then show ?thesis by simp
next
  case False
  have b: "0 < b" using assms by simp
  have le: "expo a \<le> expo b" by (rule expo_mono[OF assms(1,2)])
  with False assms(3) have e: "expo a = 1023" "expo b = 1023" "mant a = 9007199254740992" by auto
  have "mant a \<le> mant b" by (rule mant_mono[OF assms(1,2)]) (simp add: e)
  with mant_le[OF b] e show ?thesis by simp
qed

lemma binary64_mono_pos:
  assumes "0 < a" "a \<le> b"
  shows "jle (binary64 a) (binary64 b)"
proof -
  have b: "0 < b" using assms by simp
  show ?thesis
    unfolding binary64_pos[OF assms(1)] binary64_pos[OF b]
    using overflow_mono[OF assms] val_mono[OF assms] by auto
qed

lemma binary64_nonneg:
  assumes "0 \<le> x"
  shows "jle (Fin 0) (binary64 x)"
proof (cases "x = 0")
  case True
  then show ?thesis by simp
next
  case False
  then have x: "0 < x" using assms by simp
  have "0 \<le> real_of_int (mant x) * 2 powi (expo x - 52)"
    using mant_nonneg[OF x] by simp
  then show ?thesis unfolding binary64_pos[OF x] by simp
qed

lemma jle_jneg: "jle (jneg a) (jneg b) = jle b a"
  by (cases a; cases b) simp_all

lemma jle_trans: "jle a b \<Longrightarrow> jle b c \<Longrightarrow> jle a c"
  by (cases a; cases b; cases c) simp_all

lemma binary64_mono:
  assumes "x \<le> y"
  shows "jle (binary64 x) (binary64 y)"
proof -
  consider "0 < x" | "x \<le> 0" "0 \<le> y" | "y < 0" using assms by linarith
  then show ?thesis
  proof cases
    case 1
    then show ?thesis using assms by (rule binary64_mono_pos)
  next
    case 2
    have "jle (Fin 0) (binary64 (- x))" using 2(1) by (intro binary64_nonneg) simp
    then have "jle (binary64 x) (Fin 0)"
      unfolding binary64_neg using jle_jneg[of "Fin 0" "binary64 x"] by simp
    moreover have "jle (Fin 0) (binary64 y)" using 2(2) by (rule binary64_nonneg)
    ultimately show ?thesis by (rule jle_trans)
  next
    case 3
    have "jle (binary64 (- y)) (binary64 (- x))"
      using 3 assms by (intro binary64_mono_pos) simp_all
    then show ?thesis unfolding binary64_neg by (simp only: jle_jneg)
  qed
qed

lemma binary64_not_NaN [simp]: "binary64 x \<noteq> NaN"
  by (simp add: binary64_def Let_def)

lemma binary64_between:
  assumes "lo \<le> x" "x \<le> hi" "binary64 lo = Fin l" "binary64 hi = Fin u"
  shows "\<exists>y. binary64 x = Fin y \<and> l \<le> y \<and> y \<le> u"
  using binary64_mono[OF assms(1)] binary64_mono[OF assms(2)] assms(3,4)
  by (cases "binary64 x") simp_all

lemma ilog2_unique:
  assumes "0 < x" "2 powi e \<le> x" "x < 2 powi (e + 1)"
  shows "ilog2 x = e"
proof (rule ccontr)
  assume "ilog2 x \<noteq> e"
  then consider "ilog2 x + 1 \<le> e" | "e + 1 \<le> ilog2 x" by linarith
  then show False
  proof cases
    case 1
    then have "(2::real) powi (ilog2 x + 1) \<le> 2 powi e"
      by (intro power_int_increasing) simp_all
    with ilog2_bounds(2)[OF assms(1)] assms(2) show False by linarith
  next
    case 2
    then have "(2::real) powi (e + 1) \<le> 2 powi (ilog2 x)"
      by (intro power_int_increasing) simp_all
    with ilog2_bounds(1)[OF assms(1)] assms(3) show False by linarith
  qed
qed

lemma rhe_near:
  assumes "\<bar>y - of_int n\<bar> < 1 / 2"
  shows "rhe y = n"
proof -
  have "real_of_int (rhe y) - of_int n < 1" "of_int n - real_of_int (rhe y) < 1"
    using rhe_bounds[of y] assms by linarith+
  then have "rhe y - n < 1" "n - rhe y < 1" by linarith+
  then show ?thesis by simp
qed

lemma binary64_cert:
  assumes "0 < x" "2 powi e \<le> x" "x < 2 powi (e + 1)" "- 1022 \<le> e" "e < 1023"
      and "\<bar>x / 2 powi (e - 52) - of_int n\<bar> < 1 / 2"
      and "r = of_int n * 2 powi (e - 52)"
  shows "binary64 x = Fin r"
proof -
  have i: "ilog2 x = e" by (rule ilog2_unique[OF assms(1-3)])
  have e: "expo x = e" using assms(4) by (simp add: expo_def i)
  have m: "mant x = n" unfolding mant_def e by (rule rhe_near[OF assms(6)])
  show ?thesis
    unfolding binary64_pos[OF assms(1)] e m using assms(5,7) by simp
qed

lemma powi_neg_numeral: "(2::real) powi (- numeral k) = 1 / 2 ^ numeral k"
  by (simp add: power_int_minus field_simps)



lemma powi_53: "(2::real) powi (j + 53) = 9007199254740992 * 2 powi j"
proof -
  have "(2::real) powi (j + 53) = 2 powi (53 + j)"
    by (rule arg_cong[where f = "\<lambda>i. 2 powi i"]) simp
  also have "\<dots> = 2 powi 53 * 2 powi j" by (rule power_int_add) simp
  also have "(2::real) powi 53 = 9007199254740992" by (simp add: power_int_def)
  finally show ?thesis .
qed

lemma binary64_exact_pos:
  fixes k j :: int
  assumes "0 < k" "k \<le> 9007199254740992" "- 1074 \<le> j" "j \<le> 970"
  shows "binary64 (of_int k * 2 powi j) = Fin (of_int k * 2 powi j)"
proof -
  define x where "x = real_of_int k * 2 powi j"
  define E where "E = expo x"
  define u :: real where "u = 2 powi (E - 52)"
  have x: "0 < x" using assms(1) by (simp add: x_def)
  have u: "0 < u" by (simp add: u_def)
  have E1: "- 1022 \<le> E" by (simp add: E_def expo_def)
  have Ei: "ilog2 x \<le> E" by (simp add: E_def expo_def)
  have Ecase: "E = - 1022 \<or> E = ilog2 x" by (auto simp: E_def expo_def max_def)
  have "(2::real) powi (ilog2 x + 1) \<le> 2 powi (E + 1)"
    using Ei by (intro power_int_increasing) simp_all
  then have up: "x < 2 powi (E + 1)" using ilog2_bounds(2)[OF x] by linarith
  have xk: "x \<le> 2 powi (j + 53)"
  proof -
    have "x \<le> 9007199254740992 * 2 powi j"
      unfolding x_def using assms(2) by (intro mult_right_mono) simp_all
    also have "\<dots> = 2 powi (j + 53)" by (rule powi_53[symmetric])
    finally show ?thesis .
  qed
  have Ej: "E \<le> j + 53"
  proof (rule ccontr)
    assume "\<not> E \<le> j + 53"
    then have gt: "j + 54 \<le> E" by simp
    with assms(3) have "E \<noteq> - 1022" by simp
    with Ecase have "E = ilog2 x" by simp
    then have "2 powi E \<le> x" using ilog2_bounds(1)[OF x] by simp
    moreover have "(2::real) powi (j + 53) < 2 powi E"
      using gt by (intro power_int_strict_increasing) simp_all
    ultimately show False using xk by linarith
  qed
  have xu: "x / u = real_of_int k * 2 powi (j - E + 52)"
  proof -
    have "(2::real) powi (j - E + 52) = 2 powi j / 2 powi (E - 52)"
      using power_int_diff[of "2::real" j "E - 52"] by (simp add: algebra_simps)
    then show ?thesis by (simp add: x_def u_def)
  qed
  obtain m :: int where m: "x / u = of_int m"
  proof (cases "0 \<le> j - E + 52")
    case True
    have "(2::real) powi (j - E + 52) = 2 ^ nat (j - E + 52)"
      using True by (simp add: power_int_def)
    then have "x / u = of_int (k * 2 ^ nat (j - E + 52))" unfolding xu by simp
    then show ?thesis by (rule that)
  next
    case False
    with Ej have d: "E = j + 53" by simp
    with assms(3) have "E \<noteq> - 1022" by simp
    with Ecase have "E = ilog2 x" by simp
    then have "2 powi E \<le> x" using ilog2_bounds(1)[OF x] by simp
    then have "9007199254740992 * 2 powi j \<le> real_of_int k * 2 powi j"
      unfolding d x_def powi_53 .
    then have "9007199254740992 \<le> real_of_int k" by simp
    then have "9007199254740992 \<le> k" by linarith
    with assms(2) have k: "k = 9007199254740992" by simp
    have dd: "j - E + 52 = - 1" using d by simp
    have "x / u = real_of_int k * 2 powi (- 1)" unfolding xu dd ..
    also have "\<dots> = of_int 4503599627370496" unfolding k by (simp add: power_int_minus)
    finally show ?thesis by (rule that)
  qed
  have mant: "mant x = m"
    unfolding mant_def E_def[symmetric] u_def[symmetric] m by simp
  have val: "real_of_int m * u = x" using m u by (simp add: field_simps)
  have "x < 9007199254740992 * u"
    using up unfolding u_def powi_split53[of E] .
  then have "real_of_int m < 9007199254740992" using m u by (simp add: field_simps)
  then have mlt: "m < 9007199254740992" by linarith
  have "E \<le> 1023" using Ej assms(4) by simp
  then have "\<not> (1024 \<le> E \<or> (E = 1023 \<and> m = 9007199254740992))" using mlt by simp
  then show ?thesis
    unfolding x_def[symmetric] binary64_pos[OF x] E_def[symmetric] mant u_def[symmetric] val
    by simp
qed

lemma binary64_exact:
  fixes k j :: int
  assumes "\<bar>k\<bar> \<le> 9007199254740992" "- 1074 \<le> j" "j \<le> 970"
  shows "binary64 (of_int k * 2 powi j) = Fin (of_int k * 2 powi j)"
proof -
  consider "0 < k" | "k = 0" | "k < 0" by linarith
  then show ?thesis
  proof cases
    case 1
    then show ?thesis using assms by (intro binary64_exact_pos) simp_all
  next
    case 2
    then show ?thesis by simp
  next
    case 3
    then have "binary64 (of_int (- k) * 2 powi j) = Fin (of_int (- k) * 2 powi j)"
      using assms by (intro binary64_exact_pos) simp_all
    then have "binary64 (- (of_int k * 2 powi j)) = Fin (- (of_int k * 2 powi j))" by simp
    then show ?thesis unfolding binary64_neg by (cases "binary64 (of_int k * 2 powi j)") simp_all
  qed
qed

lemma binary64_numeral [simp]:
  "numeral k \<le> (9007199254740992::int) \<Longrightarrow> binary64 (numeral k) = Fin (numeral k)"
  using binary64_exact[of "numeral k" 0] by simp

lemma binary64_one [simp]: "binary64 1 = Fin 1"
  using binary64_exact[of 1 0] by simp

lemma binary64_halves [simp]:
  "numeral k \<le> (9007199254740992::int) \<Longrightarrow> binary64 (numeral k / 2) = Fin (numeral k / 2)"
  "binary64 (1 / 2) = Fin (1 / 2)"
  using binary64_exact[of "numeral k" "- 1"] binary64_exact[of 1 "- 1"]
  by (simp_all add: power_int_minus field_simps)

lemma binary64_quarters [simp]:
  "numeral k \<le> (9007199254740992::int) \<Longrightarrow> binary64 (numeral k / 4) = Fin (numeral k / 4)"
  "binary64 (1 / 4) = Fin (1 / 4)"
  using binary64_exact[of "numeral k" "- 2"] binary64_exact[of 1 "- 2"]
  by (simp_all add: power_int_minus field_simps)

lemma binary64_neg_simp [simp]: "binary64 (- x) = jneg (binary64 x)"
  by (rule binary64_neg)

lemma binary64_eighths [simp]:
  "numeral k \<le> (9007199254740992::int) \<Longrightarrow> binary64 (numeral k / 8) = Fin (numeral k / 8)"
  "binary64 (1 / 8) = Fin (1 / 8)"
  using binary64_exact[of "numeral k" "- 3"] binary64_exact[of 1 "- 3"]
  by (simp_all add: power_int_minus field_simps)

text \<open>The rounded number is within half a unit in the last place of the real, and the
  format overflows and underflows where binary64 does.\<close>

lemma binary64_error:
  assumes "0 < x" "binary64 x = Fin y"
  shows "\<bar>y - x\<bar> \<le> 2 powi (expo x - 53)"
proof -
  let ?u = "(2::real) powi (expo x - 52)"
  have u: "0 < ?u" by simp
  have y: "y = real_of_int (mant x) * ?u"
    using assms(2) unfolding binary64_pos[OF assms(1)] by (simp split: if_splits)
  have "\<bar>real_of_int (mant x) - x / ?u\<bar> \<le> 1 / 2"
    unfolding mant_def using rhe_bounds[of "x / ?u"] by linarith
  then have "\<bar>real_of_int (mant x) - x / ?u\<bar> * ?u \<le> 1 / 2 * ?u"
    by (intro mult_right_mono) simp_all
  moreover have "\<bar>real_of_int (mant x) - x / ?u\<bar> * ?u = \<bar>y - x\<bar>"
  proof -
    have "\<bar>real_of_int (mant x) - x / ?u\<bar> * ?u = \<bar>(real_of_int (mant x) - x / ?u) * ?u\<bar>"
      by (simp add: abs_mult)
    also have "(real_of_int (mant x) - x / ?u) * ?u = y - x"
      unfolding y by (simp add: algebra_simps)
    finally show ?thesis .
  qed
  moreover have "1 / 2 * ?u = 2 powi (expo x - 53)"
  proof -
    have "(2::real) powi (expo x - 52) = 2 powi (1 + (expo x - 53))"
      by (rule arg_cong[where f = "\<lambda>i. 2 powi i"]) simp
    also have "\<dots> = 2 powi 1 * 2 powi (expo x - 53)" by (rule power_int_add) simp
    finally show ?thesis by simp
  qed
  ultimately show ?thesis by simp
qed

lemma binary64_overflow: "binary64 (2 powi 1024) = PInf"
proof -
  have x: "(0::real) < 2 powi 1024" by simp
  have "(2::real) powi 1024 < 2 powi (1024 + 1)"
    by (intro power_int_strict_increasing) simp_all
  then have "ilog2 (2 powi 1024) = 1024" by (intro ilog2_unique) simp_all
  then have "expo (2 powi 1024) = 1024" by (simp add: expo_def)
  then show ?thesis unfolding binary64_pos[OF x] by simp
qed

lemma binary64_underflow: "binary64 (2 powi (- 1076)) = Fin 0"
proof -
  have x: "(0::real) < 2 powi (- 1076)" by simp
  have "(2::real) powi (- 1076) < 2 powi (- 1076 + 1)"
    by (intro power_int_strict_increasing) simp_all
  then have "ilog2 (2 powi (- 1076)) = - 1076" by (intro ilog2_unique) simp_all
  then have e: "expo (2 powi (- 1076)) = - 1022" by (simp add: expo_def)
  have "(2::real) powi (- 1076) / 2 powi (- 1022 - 52) = 2 powi (- 1076 - (- 1022 - 52))"
    by (rule power_int_diff[symmetric]) simp
  also have "\<dots> = 1 / 4" by (simp add: power_int_minus)
  finally have q: "(2::real) powi (- 1076) / 2 powi (- 1022 - 52) = 1 / 4" .
  have "mant (2 powi (- 1076)) = 0"
    unfolding mant_def e q by (rule rhe_near) simp
  then show ?thesis unfolding binary64_pos[OF x] e by simp
qed

subsection \<open>The roundings of the examples\<close>

text \<open>The binary64 numbers nearest to the decimal literals of the source and to the exact
  results of the operations that the examples below go through, each checked against
  its exponent and its significand.\<close>

lemma rounding_1: "binary64 (3 / 5) = Fin (5404319552844595 / 9007199254740992)"
  by (rule binary64_cert[where e = "- 1" and n = 5404319552844595]) (simp_all add: powi_neg_numeral)


lemma rounding_3: "binary64 (4503599126970593 / 9007199254740992) = Fin (4503599126970593 / 9007199254740992)"
  by (rule binary64_cert[where e = "- 2" and n = 9007198253941186]) (simp_all add: powi_neg_numeral)













































































lemma rounding_80: "binary64 (1349 / 2000) = Fin (6075355897322799 / 9007199254740992)"
  by (rule binary64_cert[where e = "- 1" and n = 6075355897322799]) (simp_all add: powi_neg_numeral)

lemma rounding_81: "binary64 (18226067691968397 / 9007199254740992) = Fin (4556516922992099 / 2251799813685248)"
  by (rule binary64_cert[where e = "1" and n = 4556516922992099]) (simp_all add: powi_neg_numeral)

lemma rounding_82: "binary64 (4556516922992099 / 2251799813685248) = Fin (4556516922992099 / 2251799813685248)"
  by (rule binary64_cert[where e = "1" and n = 4556516922992099]) (simp_all add: powi_neg_numeral)

lemma rounding_83: "binary64 (4556516922992099 / 7881299347898368) = Fin (2603723955995485 / 4503599627370496)"
  by (rule binary64_cert[where e = "- 1" and n = 5207447911990970]) (simp_all add: powi_neg_numeral)

lemma rounding_84: "binary64 (1 / 10000) = Fin (7378697629483821 / 73786976294838206464)"
  by (rule binary64_cert[where e = "- 14" and n = 7378697629483821]) (simp_all add: powi_neg_numeral)







lemma rounding_91: "binary64 (66408286044052015301421 / 73786976294838206464) = Fin (3958242299798251 / 4398046511104)"
  by (rule binary64_cert[where e = "9" and n = 7916484599596502]) (simp_all add: powi_neg_numeral)

lemma rounding_92: "binary64 (3958241859993600 / 3958242299798251) = Fin (4503599126970593 / 4503599627370496)"
  by (rule binary64_cert[where e = "- 1" and n = 9007198253941186]) (simp_all add: powi_neg_numeral)

lemma rounding_93: "binary64 (5772156649 / 10000000000) = Fin (2599548253356053 / 4503599627370496)"
  by (rule binary64_cert[where e = "- 1" and n = 5199096506712106]) (simp_all add: powi_neg_numeral)

lemma rounding_94: "binary64 (29 / 15) = Fin (8706959279582959 / 4503599627370496)"
  by (rule binary64_cert[where e = "0" and n = 8706959279582959]) (simp_all add: powi_neg_numeral)

lemma rounding_95: "binary64 (1 / 5) = Fin (3602879701896397 / 18014398509481984)"
  by (rule binary64_cert[where e = "- 3" and n = 7205759403792794]) (simp_all add: powi_neg_numeral)

lemma rounding_96: "binary64 (5404319552844595 / 9007199254740992) = Fin (5404319552844595 / 9007199254740992)"
  by (rule binary64_cert[where e = "- 1" and n = 5404319552844595]) (simp_all add: powi_neg_numeral)

lemma rounding_97: "binary64 (4 / 5) = Fin (3602879701896397 / 4503599627370496)"
  by (rule binary64_cert[where e = "- 1" and n = 7205759403792794]) (simp_all add: powi_neg_numeral)

section \<open>Folds\<close>

lemma jsum_Nil [simp]: "jsum [] = Fin 0"
  by (simp add: jsum_def)

lemma jsum_snoc [simp]: "jsum (xs @ [x]) = jadd (jsum xs) x"
  by (simp add: jsum_def)

lemma mean_fold:
  "jdiv (foldl (\<lambda>a b. jadd a (Fin b)) (Fin 0) data) (Fin (real (length data))) = jsMean data"
  by (simp add: jsMean_def jsum_def foldl_map)

lemma variance_fold:
  "jdiv (foldl (\<lambda>a b. jadd a (jsquare (jsub (Fin b) (jsMean data)))) (Fin 0) data)
        (Fin (real (length data))) = jsVariance data"
  by (simp add: jsVariance_def jsum_def foldl_map)

lemma indexed_zip:
  assumes "length ws = length rs"
  shows "map (\<lambda>(r, i). (r, js_nth ws (int i))) (zip rs [0..<length rs]) = zip rs ws"
  using assms by (intro nth_equalityI) (simp_all add: js_nth_def)

lemma vote_fold_zip:
  assumes "length rs = length ws"
  shows "foldl (\<lambda>(a, b) (r, w). (jadd a (jmul (score r) w), jadd b w)) (a0, b0) (zip rs ws)
     = (foldl jadd a0 (map (\<lambda>(r, w). jmul (score r) w) (zip rs ws)), foldl jadd b0 ws)"
  using assms
  by (induction rs ws arbitrary: a0 b0 rule: list_induct2) simp_all

lemma vote_fold:
  assumes "length ws = length rs"
  shows "foldl (\<lambda>(weightedScore, totalWeight) (result, i).
                   (jadd weightedScore (jmul (score result) (js_nth ws (int i))),
                    jadd totalWeight (js_nth ws (int i))))
               (Fin 0, Fin 0) (zip rs [0..<length rs])
         = (jsum (map (\<lambda>(r, w). jmul (score r) w) (zip rs ws)), jsum ws)"
proof -
  have "foldl (\<lambda>(weightedScore, totalWeight) (result, i).
                   (jadd weightedScore (jmul (score result) (js_nth ws (int i))),
                    jadd totalWeight (js_nth ws (int i))))
               (Fin 0, Fin 0) (zip rs [0..<length rs])
        = foldl (\<lambda>(a, b) (r, w). (jadd a (jmul (score r) w), jadd b w)) (Fin 0, Fin 0)
            (map (\<lambda>(r, i). (r, js_nth ws (int i))) (zip rs [0..<length rs]))"
    by (simp add: foldl_map split_def)
  also have "\<dots> = foldl (\<lambda>(a, b) (r, w). (jadd a (jmul (score r) w), jadd b w)) (Fin 0, Fin 0) (zip rs ws)"
    by (simp only: indexed_zip[OF assms])
  also have "\<dots> = (jsum (map (\<lambda>(r, w). jmul (score r) w) (zip rs ws)), jsum ws)"
    using assms by (simp add: vote_fold_zip jsum_def)
  finally show ?thesis .
qed

lemma length_weights [simp]: "length (calculateAlgorithmWeights this rs) = length rs"
  by (simp add: calculateAlgorithmWeights_def)

lemma contribution_map:
  assumes "length ws = length rs"
  shows "map (\<lambda>(r, i). r\<lparr>contribution := jdiv (jmul (score r) (js_nth ws (int i))) d\<rparr>)
             (zip rs [0..<length rs])
         = map (\<lambda>(r, w). r\<lparr>contribution := jdiv (jmul (score r) w) d\<rparr>) (zip rs ws)"
proof -
  have "map (\<lambda>(r, i). r\<lparr>contribution := jdiv (jmul (score r) (js_nth ws (int i))) d\<rparr>)
             (zip rs [0..<length rs])
        = map (\<lambda>(r, w). r\<lparr>contribution := jdiv (jmul (score r) w) d\<rparr>)
            (map (\<lambda>(r, i). (r, js_nth ws (int i))) (zip rs [0..<length rs]))"
    by (simp add: split_def)
  then show ?thesis by (simp only: indexed_zip[OF assms])
qed

section \<open>Ensemble voting\<close>

lemma ensembleVote_nonempty:
  assumes "rs \<noteq> []"
  shows "ensembleVote this rs =
     (let ws = calculateAlgorithmWeights this rs;
          weightedScore = jsum (map (\<lambda>(r, w). jmul (score r) w) (zip rs ws));
          normalizedScore = jdiv weightedScore (jsum ws);
          agreement = jdiv (Fin (real (length (filter isAnomaly rs)))) (Fin (real (length rs)));
          confidence' = (if jgt normalizedScore (getThreshold this)
                         then jmul agreement normalizedScore
                         else jmul (jsub (Fin 1) agreement) (jsub (Fin 1) normalizedScore))
      in \<lparr>isAnomaly = jgt normalizedScore (getThreshold this),
          score = normalizedScore,
          confidence = confidence',
          severity = determineSeverity normalizedScore confidence',
          algorithms = map (\<lambda>(r, w). r\<lparr>contribution := jdiv (jmul (score r) w) weightedScore\<rparr>) (zip rs ws)\<rparr>)"
  using assms
  by (simp add: ensembleVote_def Let_def vote_fold contribution_map)

text \<open>
  Claim C3: for a non-empty list of detector results the verdict of \<open>ensembleVote\<close> has
  the score \<open>\<Sigma>(score\<^sub>i \<sqdot> weight\<^sub>i) / \<Sigma>(weight\<^sub>i)\<close>; it is an anomaly exactly when the score
  is greater than the threshold of the sensitivity (0.7 for low, 0.6 for medium, 0.5 for
  high, 0.6 for adaptive); and its confidence is \<open>agreement \<sqdot> score\<close> for an anomaly and
  \<open>(1 - agreement) \<sqdot> (1 - score)\<close> otherwise, where the agreement is the fraction of the
  results that report an anomaly. For the empty list the verdict is no anomaly, of
  score 0. The sums, products and quotients are those of the language.
\<close>

theorem C3_ensembleVote_verdict:
  "\<not> isAnomaly (ensembleVote this []) \<and> score (ensembleVote this []) = Fin 0 \<and>
   (rs \<noteq> [] \<longrightarrow>
      (let ws = calculateAlgorithmWeights this rs;
           weighted = jdiv (jsum (map (\<lambda>(r, w). jmul (score r) w) (zip rs ws))) (jsum ws);
           threshold = (case sensitivity (config this) of
                          S_low \<Rightarrow> lit 0.7 | S_medium \<Rightarrow> lit 0.6 | S_high \<Rightarrow> lit 0.5
                        | S_adaptive \<Rightarrow> lit 0.6);
           agreement = jdiv (Fin (real (length (filter isAnomaly rs)))) (Fin (real (length rs)))
       in score (ensembleVote this rs) = weighted \<and>
          isAnomaly (ensembleVote this rs) = jgt weighted threshold \<and>
          confidence (ensembleVote this rs) =
            (if isAnomaly (ensembleVote this rs) then jmul agreement weighted
             else jmul (jsub (Fin 1) agreement) (jsub (Fin 1) weighted))))"
proof -
  have "\<not> isAnomaly (ensembleVote this [])" "score (ensembleVote this []) = Fin 0"
    by (simp_all add: ensembleVote_def)
  moreover have "rs \<noteq> [] \<longrightarrow>
      (let ws = calculateAlgorithmWeights this rs;
           weighted = jdiv (jsum (map (\<lambda>(r, w). jmul (score r) w) (zip rs ws))) (jsum ws);
           threshold = (case sensitivity (config this) of
                          S_low \<Rightarrow> lit 0.7 | S_medium \<Rightarrow> lit 0.6 | S_high \<Rightarrow> lit 0.5
                        | S_adaptive \<Rightarrow> lit 0.6);
           agreement = jdiv (Fin (real (length (filter isAnomaly rs)))) (Fin (real (length rs)))
       in score (ensembleVote this rs) = weighted \<and>
          isAnomaly (ensembleVote this rs) = jgt weighted threshold \<and>
          confidence (ensembleVote this rs) =
            (if isAnomaly (ensembleVote this rs) then jmul agreement weighted
             else jmul (jsub (Fin 1) agreement) (jsub (Fin 1) weighted)))"
    by (simp add: ensembleVote_nonempty Let_def getThreshold_def)
  ultimately show ?thesis by blast
qed

theorem C3_ensembleVote_verdict_witness:
  "sampleResults \<noteq> []
   \<and> score (ensembleVote detector sampleResults) = Fin (3 / 4)
   \<and> isAnomaly (ensembleVote detector sampleResults)
   \<and> confidence (ensembleVote detector sampleResults) = Fin (3 / 8)"
  using C3_ensembleVote_verdict[of detector sampleResults]
  by (simp add: sampleResults_def detector_def newDetector_def defaultConfig_def
        calculateAlgorithmWeights_def Let_def jgt_def jsub_def jsum_def lit_def rounding_1)







section \<open>The short circuit on insufficient history\<close>

text \<open>
  Claim C4: a call of \<open>detect\<close> with fewer historical points than
  \<open>minDataPoints\<close> does not raise: it returns a result that is no anomaly, lists no
  algorithm, has analysed 0 data points and gives the reason
  \<^verbatim>\<open>Insufficient historical data\<close> (the text of the source, with its capital).
\<close>

theorem C4_insufficient_history:
  assumes "int (length historicalData) < minDataPoints (config this)"
  shows "\<exists>r. fst (detect fmt this dataPoint historicalData h) = Inr r
             \<and> \<not> isAnomaly r
             \<and> algorithms r = []
             \<and> dataPointsAnalyzed (metadata r) = 0
             \<and> reason (explanation r) = ''Insufficient historical data''"
  using assms
  by (simp add: detect_def date_now_def Let_def createNonAnomalyResult_def)

theorem C4_insufficient_history_witness:
  "int (length ([] :: DataPoint list)) < minDataPoints (config detector)
   \<and> (\<exists>r. fst (detect sampleFormat detector (samplePoint 5) [] sampleHost) = Inr r
             \<and> \<not> isAnomaly r
             \<and> algorithms r = []
             \<and> dataPointsAnalyzed (metadata r) = 0
             \<and> reason (explanation r) = ''Insufficient historical data'')"
proof -
  have h: "int (length ([] :: DataPoint list)) < minDataPoints (config detector)"
    by (simp add: detector_def newDetector_def defaultConfig_def)
  show ?thesis using h C4_insufficient_history[OF h] by blast
qed

section \<open>The structure of \<open>detect\<close>\<close>

lemma runZScore_core:
  "core (fst (runZScore this v data h)) = reading ''zscore'' (zScore v data (getSensitivityThreshold this))"
  by (simp add: runZScore_def core_def reading_def split_def Let_def)

lemma runMAD_core: "core (fst (runMAD this v data h)) = reading ''mad'' (mad v data 3.5)"
  by (simp add: runMAD_def core_def reading_def split_def Let_def)

lemma runIQR_core: "core (fst (runIQR this v data h)) = reading ''iqr'' (iqr v data 1.5)"
  by (simp add: runIQR_def core_def reading_def split_def Let_def)

lemma runIsolationForest_core:
  "core (fst (runIsolationForest this v data h))
     = reading ''isolation-forest'' (fst (isolationForest v data 100 (snd (date_now h))))"
  by (simp add: runIsolationForest_def core_def reading_def split_def Let_def)

lemma length_insert_by [simp]: "length (insert_by cmp x xs) = Suc (length xs)"
  by (induction xs) simp_all

lemma length_sort_by [simp]: "length (sort_by cmp xs) = length xs"
  unfolding sort_by_def by (induction xs) simp_all

lemma lof_returns:
  assumes "0 < k"
  shows "\<exists>r. lof v data k = Inr r"
proof (cases "length data < k + 1")
  case True
  then show ?thesis by (simp add: lof_def)
next
  case False
  let ?ds = "take k (sort_by (\<lambda>a b. jsub (distance a) (distance b))
                (map (\<lambda>(d, i). \<lparr>nb_value = d, distance = jabs (jsub (Fin d) (Fin v)), index = i\<rparr>)
                     (zip data [0..<length data])))"
  have "length ?ds = k" using False by simp
  then have "length ?ds \<noteq> 0" using assms by (simp only:)
  then have "?ds \<noteq> []" by (simp only: length_0_conv not_False_eq_True)
  then show ?thesis using False by (simp add: lof_def Let_def)
qed

lemma runLOF_core:
  assumes "lof v data 5 = Inr L"
  shows "\<exists>a. fst (runLOF this v data h) = Inr a \<and> core a = reading ''lof'' L"
  using assms by (simp add: runLOF_def core_def reading_def split_def Let_def)

lemma if_pair: "(if c then (a, b) else (a', b')) = ((if c then a else a'), (if c then b else b'))"
  by simp

lemma if_Inr: "(if c then Inr a else Inr b) = Inr (if c then a else b)"
  by simp

lemma detect_sufficient:
  assumes "\<not> int (length historicalData) < minDataPoints (config this)"
  shows "\<exists>rs forest neighbours t.
           lof (value dataPoint) (map value historicalData) 5 = Inr neighbours
         \<and> (\<exists>h'. forest = fst (isolationForest (value dataPoint) (map value historicalData) 100 h'))
         \<and> map core rs = enabledReadings this (value dataPoint) (map value historicalData) forest neighbours
         \<and> fst (detect fmt this dataPoint historicalData h) =
             (case generateExplanation fmt (value dataPoint) (map value historicalData)
                     (ensembleVote this rs) historicalData of
                Inl e \<Rightarrow> Inl e
              | Inr ex \<Rightarrow>
                  Inr \<lparr>isAnomaly = isAnomaly (ensembleVote this rs),
                       score = score (ensembleVote this rs),
                       confidence = confidence (ensembleVote this rs),
                       severity = severity (ensembleVote this rs),
                       algorithms = algorithms (ensembleVote this rs),
                       explanation = ex,
                       metadata =
                         \<lparr>processingTimeMs = t,
                          dataPointsAnalyzed = length historicalData,
                          modelVersion = modelVersion this,
                          algorithm = ''ensemble''\<rparr>\<rparr>)"
proof -
  let ?v = "value dataPoint" and ?d = "map value historicalData"
  let ?c1 = "shouldRunAlgorithm this ''zscore''"
  let ?c2 = "shouldRunAlgorithm this ''mad''"
  let ?c3 = "shouldRunAlgorithm this ''iqr''"
  let ?c4 = "shouldRunAlgorithm this ''isolation-forest''"
  let ?c5 = "shouldRunAlgorithm this ''lof''"
  obtain L where L: "lof ?v ?d 5 = Inr L" using lof_returns[of 5 ?v ?d] by auto
  obtain startTime h0 where e0: "date_now h = (startTime, h0)" by (cases "date_now h")
  obtain r1 g1 where e1: "runZScore this ?v ?d h0 = (r1, g1)" by (cases "runZScore this ?v ?d h0")
  let ?h1 = "if ?c1 then g1 else h0"
  obtain r2 g2 where e2: "runMAD this ?v ?d ?h1 = (r2, g2)" by (cases "runMAD this ?v ?d ?h1")
  let ?h2 = "if ?c2 then g2 else ?h1"
  obtain r3 g3 where e3: "runIQR this ?v ?d ?h2 = (r3, g3)" by (cases "runIQR this ?v ?d ?h2")
  let ?h3 = "if ?c3 then g3 else ?h2"
  obtain r4 g4 where e4: "runIsolationForest this ?v ?d ?h3 = (r4, g4)"
    by (cases "runIsolationForest this ?v ?d ?h3")
  let ?h4 = "if ?c4 then g4 else ?h3"
  obtain r5 where r5: "fst (runLOF this ?v ?d ?h4) = Inr r5" "core r5 = reading ''lof'' L"
    using runLOF_core[OF L] by blast
  obtain g5 where e5: "runLOF this ?v ?d ?h4 = (Inr r5, g5)"
    using r5(1) by (cases "runLOF this ?v ?d ?h4") simp
  let ?h5 = "if ?c5 then g5 else ?h4"
  obtain t6 g6 where e6: "date_now ?h5 = (t6, g6)" by (cases "date_now ?h5")
  define F where "F = fst (isolationForest ?v ?d 100 (snd (date_now ?h3)))"
  define rs where "rs = (if ?c1 then [r1] else []) @ (if ?c2 then [r2] else [])
                        @ (if ?c3 then [r3] else []) @ (if ?c4 then [r4] else [])
                        @ (if ?c5 then [r5] else [])"
  have k1: "core r1 = reading ''zscore'' (zScore ?v ?d (getSensitivityThreshold this))"
    using runZScore_core[of this ?v ?d h0] by (simp add: e1)
  have k2: "core r2 = reading ''mad'' (mad ?v ?d 3.5)"
    using runMAD_core[of this ?v ?d ?h1] by (simp add: e2)
  have k3: "core r3 = reading ''iqr'' (iqr ?v ?d 1.5)"
    using runIQR_core[of this ?v ?d ?h2] by (simp add: e3)
  have k4: "core r4 = reading ''isolation-forest'' F"
    using runIsolationForest_core[of this ?v ?d ?h3] by (simp add: e4 F_def)
  have cores: "map core rs = enabledReadings this ?v ?d F L"
    by (simp add: rs_def enabledReadings_def k1 k2 k3 k4 r5(2))
  have stage: "(if ?c5 then (if ?c4 then (if ?c3 then (if ?c2 then (if ?c1 then [r1] else []) @ [r2]
                                                        else (if ?c1 then [r1] else [])) @ [r3]
                                          else (if ?c2 then (if ?c1 then [r1] else []) @ [r2]
                                                else (if ?c1 then [r1] else []))) @ [r4]
                             else (if ?c3 then (if ?c2 then (if ?c1 then [r1] else []) @ [r2]
                                                else (if ?c1 then [r1] else [])) @ [r3]
                                   else (if ?c2 then (if ?c1 then [r1] else []) @ [r2]
                                         else (if ?c1 then [r1] else [])))) @ [r5]
               else (if ?c4 then (if ?c3 then (if ?c2 then (if ?c1 then [r1] else []) @ [r2]
                                                        else (if ?c1 then [r1] else [])) @ [r3]
                                          else (if ?c2 then (if ?c1 then [r1] else []) @ [r2]
                                                else (if ?c1 then [r1] else []))) @ [r4]
                             else (if ?c3 then (if ?c2 then (if ?c1 then [r1] else []) @ [r2]
                                                else (if ?c1 then [r1] else [])) @ [r3]
                                   else (if ?c2 then (if ?c1 then [r1] else []) @ [r2]
                                         else (if ?c1 then [r1] else []))))) = rs"
    by (simp add: rs_def)
  have "fst (detect fmt this dataPoint historicalData h) =
             (case generateExplanation fmt ?v ?d (ensembleVote this rs) historicalData of
                Inl e \<Rightarrow> Inl e
              | Inr ex \<Rightarrow>
                  Inr \<lparr>isAnomaly = isAnomaly (ensembleVote this rs),
                       score = score (ensembleVote this rs),
                       confidence = confidence (ensembleVote this rs),
                       severity = severity (ensembleVote this rs),
                       algorithms = algorithms (ensembleVote this rs),
                       explanation = ex,
                       metadata =
                         \<lparr>processingTimeMs = t6 - startTime,
                          dataPointsAnalyzed = length historicalData,
                          modelVersion = modelVersion this,
                          algorithm = ''ensemble''\<rparr>\<rparr>)"
    using assms
    apply (simp only: detect_def e0 Let_def prod.case if_False)
    apply (simp only: e1 prod.case if_pair append_Nil)
    apply (simp only: e2 prod.case if_pair)
    apply (simp only: e3 prod.case if_pair)
    apply (simp only: e4 prod.case if_pair)
    apply (simp only: e5 prod.case sum.case if_pair)
    apply (simp only: if_Inr stage sum.case e6 prod.case)
    apply (cases "generateExplanation fmt ?v ?d (ensembleVote this rs) historicalData")
     apply (simp_all only: sum.case fst_conv)
    done
  with L cores show ?thesis unfolding F_def by blast
qed

lemma generateExplanation_empty:
  "generateExplanation fmt v [] res historicalData = Inl TypeError"
  by (simp add: generateExplanation_def Let_def)

lemma generateExplanation_nonempty:
  assumes "data \<noteq> []"
  shows "\<exists>ex. generateExplanation fmt v data res historicalData = Inr ex
            \<and> expectedRange ex = (jsub (jsMean data) (jmul (Fin 2) (jsStdDev data)),
                                   jadd (jsMean data) (jmul (Fin 2) (jsStdDev data)))
            \<and> deviation ex = jabs (if jgt (jsStdDev data) (Fin 0)
                                    then jdiv (jsub (Fin v) (jsMean data)) (jsStdDev data)
                                    else Fin 0)"
proof -
  have s: "sort data \<noteq> []" using assms by (metis length_sort length_0_conv)
  show ?thesis
    unfolding generateExplanation_def Let_def mean_fold variance_fold jsStdDev_def[symmetric]
    using s by simp
qed

lemma generateExplanation_reads_isAnomaly:
  assumes "isAnomaly res = isAnomaly res'"
  shows "generateExplanation fmt v data res historicalData
           = generateExplanation fmt v data res' historicalData"
  using assms by (simp add: generateExplanation_def)

lemma detect_short:
  assumes "int (length historicalData) < minDataPoints (config this)"
  shows "\<exists>t. fst (detect fmt this dataPoint historicalData h)
             = Inr (createNonAnomalyResult this dataPoint ''Insufficient historical data'' t)"
  using assms by (auto simp: detect_def date_now_def Let_def)

lemma detect_returns:
  assumes "historicalData \<noteq> []"
  shows "\<exists>r. fst (detect fmt this dataPoint historicalData h) = Inr r"
proof (cases "int (length historicalData) < minDataPoints (config this)")
  case True
  then show ?thesis using detect_short by blast
next
  case False
  have d: "map value historicalData \<noteq> []" using assms by simp
  obtain rs t where r: "fst (detect fmt this dataPoint historicalData h) =
             (case generateExplanation fmt (value dataPoint) (map value historicalData)
                     (ensembleVote this rs) historicalData of
                Inl e \<Rightarrow> Inl e
              | Inr ex \<Rightarrow>
                  Inr \<lparr>isAnomaly = isAnomaly (ensembleVote this rs),
                       score = score (ensembleVote this rs),
                       confidence = confidence (ensembleVote this rs),
                       severity = severity (ensembleVote this rs),
                       algorithms = algorithms (ensembleVote this rs),
                       explanation = ex,
                       metadata =
                         \<lparr>processingTimeMs = t,
                          dataPointsAnalyzed = length historicalData,
                          modelVersion = modelVersion this,
                          algorithm = ''ensemble''\<rparr>\<rparr>)"
    using detect_sufficient[OF False] by blast
  obtain ex where "generateExplanation fmt (value dataPoint) (map value historicalData)
                     (ensembleVote this rs) historicalData = Inr ex"
    using generateExplanation_nonempty[OF d] by blast
  then show ?thesis using r by simp
qed

lemma detect_empty_history_raises:
  assumes "minDataPoints (config this) \<le> 0"
  shows "fst (detect fmt this dataPoint [] h) = Inl TypeError"
proof -
  have "\<not> int (length ([] :: DataPoint list)) < minDataPoints (config this)"
    using assms by simp
  from detect_sufficient[OF this, of dataPoint fmt h]
  show ?thesis by (auto simp: generateExplanation_empty)
qed

lemma detect_result:
  assumes "\<not> int (length historicalData) < minDataPoints (config this)"
      and "fst (detect fmt this dataPoint historicalData h) = Inr r"
  shows "\<exists>rs forest neighbours h'.
           lof (value dataPoint) (map value historicalData) 5 = Inr neighbours
         \<and> forest = fst (isolationForest (value dataPoint) (map value historicalData) 100 h')
         \<and> map core rs = enabledReadings this (value dataPoint) (map value historicalData) forest neighbours
         \<and> isAnomaly r = isAnomaly (ensembleVote this rs)
         \<and> score r = score (ensembleVote this rs)
         \<and> confidence r = confidence (ensembleVote this rs)
         \<and> severity r = severity (ensembleVote this rs)
         \<and> algorithms r = algorithms (ensembleVote this rs)
         \<and> generateExplanation fmt (value dataPoint) (map value historicalData)
               (ensembleVote this rs) historicalData = Inr (explanation r)"
proof -
  let ?v = "value dataPoint" and ?d = "map value historicalData"
  obtain rs F L t h' where a:
      "lof ?v ?d 5 = Inr L"
      "F = fst (isolationForest ?v ?d 100 h')"
      "map core rs = enabledReadings this ?v ?d F L"
      "fst (detect fmt this dataPoint historicalData h) =
             (case generateExplanation fmt ?v ?d (ensembleVote this rs) historicalData of
                Inl e \<Rightarrow> Inl e
              | Inr ex \<Rightarrow>
                  Inr \<lparr>isAnomaly = isAnomaly (ensembleVote this rs),
                       score = score (ensembleVote this rs),
                       confidence = confidence (ensembleVote this rs),
                       severity = severity (ensembleVote this rs),
                       algorithms = algorithms (ensembleVote this rs),
                       explanation = ex,
                       metadata =
                         \<lparr>processingTimeMs = t,
                          dataPointsAnalyzed = length historicalData,
                          modelVersion = modelVersion this,
                          algorithm = ''ensemble''\<rparr>\<rparr>)"
    using detect_sufficient[OF assms(1), of dataPoint fmt h] by blast
  have "isAnomaly r = isAnomaly (ensembleVote this rs)
         \<and> score r = score (ensembleVote this rs)
         \<and> confidence r = confidence (ensembleVote this rs)
         \<and> severity r = severity (ensembleVote this rs)
         \<and> algorithms r = algorithms (ensembleVote this rs)
         \<and> generateExplanation fmt ?v ?d (ensembleVote this rs) historicalData = Inr (explanation r)"
    using a(4) assms(2)
    by (cases "generateExplanation fmt ?v ?d (ensembleVote this rs) historicalData") auto
  with a(1,2,3) show ?thesis by blast
qed

section \<open>The explanation\<close>

lemma detect_explanation:
  assumes "\<not> int (length historicalData) < minDataPoints (config this)"
      and "fst (detect fmt this dataPoint historicalData h) = Inr r"
  shows "expectedRange (explanation r)
           = (jsub (jsMean (map value historicalData)) (jmul (Fin 2) (jsStdDev (map value historicalData))),
              jadd (jsMean (map value historicalData)) (jmul (Fin 2) (jsStdDev (map value historicalData))))
       \<and> deviation (explanation r)
           = jabs (if jgt (jsStdDev (map value historicalData)) (Fin 0)
                   then jdiv (jsub (Fin (value dataPoint)) (jsMean (map value historicalData)))
                             (jsStdDev (map value historicalData))
                   else Fin 0)"
proof -
  let ?d = "map value historicalData"
  obtain rs where g: "generateExplanation fmt (value dataPoint) ?d (ensembleVote this rs) historicalData
                        = Inr (explanation r)"
    using detect_result[OF assms] by blast
  have ne: "?d \<noteq> []"
  proof
    assume "?d = []"
    then have "generateExplanation fmt (value dataPoint) ?d (ensembleVote this rs) historicalData
                 = Inl TypeError"
      by (simp add: generateExplanation_empty)
    with g show False by simp
  qed
  obtain ex where ex: "generateExplanation fmt (value dataPoint) ?d (ensembleVote this rs) historicalData = Inr ex"
     "expectedRange ex = (jsub (jsMean ?d) (jmul (Fin 2) (jsStdDev ?d)),
                          jadd (jsMean ?d) (jmul (Fin 2) (jsStdDev ?d)))"
     "deviation ex = jabs (if jgt (jsStdDev ?d) (Fin 0)
                           then jdiv (jsub (Fin (value dataPoint)) (jsMean ?d)) (jsStdDev ?d)
                           else Fin 0)"
    using generateExplanation_nonempty[OF ne] by blast
  have e: "explanation r = ex" using g ex(1) by simp
  show ?thesis by (simp only: e ex(2,3) simp_thms)
qed





subsection \<open>A constant history at 100.1\<close>









section \<open>Determinism\<close>

lemma core_algorithms:
  "map core (algorithms (ensembleVote this rs)) = map core rs"
proof (cases "rs = []")
  case True
  then show ?thesis by (simp add: ensembleVote_def)
next
  case False
  have "map core (map (\<lambda>(r, w). r\<lparr>contribution := c r w\<rparr>) (zip rs ws)) = map core rs"
    if "length ws = length rs" for ws :: "jsnum list" and c
    using that by (intro nth_equalityI) (simp_all add: core_def)
  then show ?thesis
    using False by (simp add: ensembleVote_nonempty Let_def)
qed

lemma weights_read_core:
  "calculateAlgorithmWeights this rs =
     map (\<lambda>(n, a, s). if ensembleWeighting (config this) = W_performance
                        then (case performance this n of Some perf \<Rightarrow> Fin (f1Score perf) | None \<Rightarrow> Fin 1)
                        else if ensembleWeighting (config this) = W_confidence then jadd s (lit 0.1)
                        else Fin 1) (map core rs)"
  by (simp add: calculateAlgorithmWeights_def core_def comp_def)

lemma products_read_core:
  "map (\<lambda>(r, w). jmul (score r) w) (zip rs ws)
     = map (\<lambda>(c, w). jmul (snd (snd c)) w) (zip (map core rs) ws)"
  by (simp add: zip_map1 core_def split_def)

lemma agreement_reads_core:
  "length (filter isAnomaly rs) = length (filter (\<lambda>c. fst (snd c)) (map core rs))"
  by (simp add: filter_map comp_def core_def)

lemma ensembleVote_reads_core:
  assumes "map core rs = map core rs'"
  shows "isAnomaly (ensembleVote this rs) = isAnomaly (ensembleVote this rs')"
    and "score (ensembleVote this rs) = score (ensembleVote this rs')"
    and "confidence (ensembleVote this rs) = confidence (ensembleVote this rs')"
    and "severity (ensembleVote this rs) = severity (ensembleVote this rs')"
proof -
  have len: "length rs = length rs'" using assms by (metis length_map)
  have w: "calculateAlgorithmWeights this rs = calculateAlgorithmWeights this rs'"
    by (simp only: weights_read_core assms)
  have p: "map (\<lambda>(r, w). jmul (score r) w) (zip rs ws) = map (\<lambda>(r, w). jmul (score r) w) (zip rs' ws)" for ws
    by (simp only: products_read_core assms)
  have a: "length (filter isAnomaly rs) = length (filter isAnomaly rs')"
    by (simp only: agreement_reads_core assms)
  have e: "rs = [] \<longleftrightarrow> rs' = []" using len by auto
  show "isAnomaly (ensembleVote this rs) = isAnomaly (ensembleVote this rs')"
    and "score (ensembleVote this rs) = score (ensembleVote this rs')"
    and "confidence (ensembleVote this rs) = confidence (ensembleVote this rs')"
    and "severity (ensembleVote this rs) = severity (ensembleVote this rs')"
    using e by (cases "rs = []"; simp add: ensembleVote_nonempty Let_def w p a len)+
qed

text \<open>
  Claim C9: when the configuration does not make the isolation-forest detector run,
  two calls of \<open>detect\<close> with the same value, history, configuration and performance
  table give the same \<open>isAnomaly\<close>, \<open>score\<close>, \<open>confidence\<close>, \<open>severity\<close> and
  \<open>explanation\<close>, whatever the clock and the random source of each call are (both
  raise, or both return and the five fields agree): the random draws, which only the
  isolation forest makes, are the only source of variance.
\<close>

theorem C9_deterministic_without_isolation_forest:
  assumes "\<not> shouldRunAlgorithm this ''isolation-forest''"
  shows "map_sum id verdict (fst (detect fmt this dataPoint historicalData h1))
       = map_sum id verdict (fst (detect fmt this dataPoint historicalData h2))"
proof (cases "int (length historicalData) < minDataPoints (config this)")
  case True
  obtain t1 where t1: "fst (detect fmt this dataPoint historicalData h1)
             = Inr (createNonAnomalyResult this dataPoint ''Insufficient historical data'' t1)"
    using detect_short[OF True] by blast
  obtain t2 where t2: "fst (detect fmt this dataPoint historicalData h2)
             = Inr (createNonAnomalyResult this dataPoint ''Insufficient historical data'' t2)"
    using detect_short[OF True] by blast
  show ?thesis
    unfolding t1 t2 by (simp add: verdict_def createNonAnomalyResult_def)
next
  case False
  let ?v = "value dataPoint" and ?d = "map value historicalData"
  obtain rs F L t where a: "lof ?v ?d 5 = Inr L"
      "map core rs = enabledReadings this ?v ?d F L"
      "fst (detect fmt this dataPoint historicalData h1) =
             (case generateExplanation fmt ?v ?d (ensembleVote this rs) historicalData of
                Inl e \<Rightarrow> Inl e
              | Inr ex \<Rightarrow>
                  Inr \<lparr>isAnomaly = isAnomaly (ensembleVote this rs),
                       score = score (ensembleVote this rs),
                       confidence = confidence (ensembleVote this rs),
                       severity = severity (ensembleVote this rs),
                       algorithms = algorithms (ensembleVote this rs),
                       explanation = ex,
                       metadata =
                         \<lparr>processingTimeMs = t,
                          dataPointsAnalyzed = length historicalData,
                          modelVersion = modelVersion this,
                          algorithm = ''ensemble''\<rparr>\<rparr>)"
    using detect_sufficient[OF False, of dataPoint fmt h1] by blast
  obtain rs' F' L' t' where b: "lof ?v ?d 5 = Inr L'"
      "map core rs' = enabledReadings this ?v ?d F' L'"
      "fst (detect fmt this dataPoint historicalData h2) =
             (case generateExplanation fmt ?v ?d (ensembleVote this rs') historicalData of
                Inl e \<Rightarrow> Inl e
              | Inr ex \<Rightarrow>
                  Inr \<lparr>isAnomaly = isAnomaly (ensembleVote this rs'),
                       score = score (ensembleVote this rs'),
                       confidence = confidence (ensembleVote this rs'),
                       severity = severity (ensembleVote this rs'),
                       algorithms = algorithms (ensembleVote this rs'),
                       explanation = ex,
                       metadata =
                         \<lparr>processingTimeMs = t',
                          dataPointsAnalyzed = length historicalData,
                          modelVersion = modelVersion this,
                          algorithm = ''ensemble''\<rparr>\<rparr>)"
    using detect_sufficient[OF False, of dataPoint fmt h2] by blast
  have LL: "L' = L" using a(1) b(1) by simp
  have "enabledReadings this ?v ?d F L = enabledReadings this ?v ?d F' L"
    using assms by (simp add: enabledReadings_def)
  then have c: "map core rs = map core rs'" using a(2) b(2) LL by simp
  note v = ensembleVote_reads_core[OF c, of this]
  have g: "generateExplanation fmt ?v ?d (ensembleVote this rs) historicalData
             = generateExplanation fmt ?v ?d (ensembleVote this rs') historicalData"
    by (rule generateExplanation_reads_isAnomaly) (rule v(1))
  show ?thesis
    unfolding a(3) b(3) g v
    by (cases "generateExplanation fmt ?v ?d (ensembleVote this rs') historicalData")
       (simp_all add: verdict_def)
qed

theorem C9_deterministic_without_isolation_forest_witness:
  "\<not> shouldRunAlgorithm (newDetector (\<lambda>c. c\<lparr>AdvancedDetectorConfig.algorithms := [''zscore'', ''mad'']\<rparr>))
        ''isolation-forest''
   \<and> map_sum id verdict
        (fst (detect sampleFormat (newDetector (\<lambda>c. c\<lparr>AdvancedDetectorConfig.algorithms := [''zscore'', ''mad'']\<rparr>))
                (samplePoint 1000) (history30 100) sampleHost))
     = map_sum id verdict
        (fst (detect sampleFormat (newDetector (\<lambda>c. c\<lparr>AdvancedDetectorConfig.algorithms := [''zscore'', ''mad'']\<rparr>))
                (samplePoint 1000) (history30 100) otherHost))"
proof -
  have n: "\<not> shouldRunAlgorithm (newDetector (\<lambda>c. c\<lparr>AdvancedDetectorConfig.algorithms := [''zscore'', ''mad'']\<rparr>))
        ''isolation-forest''"
    by (simp add: newDetector_def defaultConfig_def shouldRunAlgorithm_def)
  show ?thesis
    using n C9_deterministic_without_isolation_forest[OF n] by blast
qed

section \<open>The thresholds of the detectors\<close>

lemma detect_algorithms_core:
  assumes "\<not> int (length historicalData) < minDataPoints (config this)"
      and "fst (detect fmt this dataPoint historicalData h) = Inr r"
  shows "\<exists>forest neighbours.
           map core (algorithms r)
             = enabledReadings this (value dataPoint) (map value historicalData) forest neighbours"
proof -
  let ?v = "value dataPoint" and ?d = "map value historicalData"
  obtain rs F L t where a:
      "map core rs = enabledReadings this ?v ?d F L"
      "fst (detect fmt this dataPoint historicalData h) =
             (case generateExplanation fmt ?v ?d (ensembleVote this rs) historicalData of
                Inl e \<Rightarrow> Inl e
              | Inr ex \<Rightarrow>
                  Inr \<lparr>isAnomaly = isAnomaly (ensembleVote this rs),
                       score = score (ensembleVote this rs),
                       confidence = confidence (ensembleVote this rs),
                       severity = severity (ensembleVote this rs),
                       algorithms = algorithms (ensembleVote this rs),
                       explanation = ex,
                       metadata =
                         \<lparr>processingTimeMs = t,
                          dataPointsAnalyzed = length historicalData,
                          modelVersion = modelVersion this,
                          algorithm = ''ensemble''\<rparr>\<rparr>)"
    using detect_sufficient[OF assms(1), of dataPoint fmt h] by blast
  have "algorithms r = algorithms (ensembleVote this rs)"
    using a(2) assms(2)
    by (cases "generateExplanation fmt ?v ?d (ensembleVote this rs) historicalData") auto
  then have "map core (algorithms r) = enabledReadings this ?v ?d F L"
    by (simp add: core_algorithms a(1))
  then show ?thesis by blast
qed

text \<open>
  Claim C10: in every call of \<open>detect\<close> that passes the guard and returns, each
  enabled statistical detector has its entry in the result, and the flag and the score
  of the entry are those of \<open>zScore\<close> called with the threshold of the sensitivity
  (4 for low, 3 for medium, 2 for high, 3 for adaptive), of \<open>mad\<close> called with 3.5 and
  of \<open>iqr\<close> called with 1.5, whatever the sensitivity.
\<close>

theorem C10_detector_thresholds:
  assumes "\<not> int (length historicalData) < minDataPoints (config this)"
      and "fst (detect fmt this dataPoint historicalData h) = Inr r"
  shows "(shouldRunAlgorithm this ''zscore'' \<longrightarrow> (\<exists>a \<in> set (algorithms r). name a = ''zscore''))
       \<and> (shouldRunAlgorithm this ''mad'' \<longrightarrow> (\<exists>a \<in> set (algorithms r). name a = ''mad''))
       \<and> (shouldRunAlgorithm this ''iqr'' \<longrightarrow> (\<exists>a \<in> set (algorithms r). name a = ''iqr''))
       \<and> (\<forall>a \<in> set (algorithms r).
            (name a = ''zscore'' \<longrightarrow>
               (isAnomaly a, score a)
                 = (let z = zScore (value dataPoint) (map value historicalData)
                              (case sensitivity (config this) of
                                 S_low \<Rightarrow> 4 | S_medium \<Rightarrow> 3 | S_high \<Rightarrow> 2 | S_adaptive \<Rightarrow> 3)
                    in (isAnomaly z, score z)))
          \<and> (name a = ''mad'' \<longrightarrow>
               (isAnomaly a, score a)
                 = (let m = mad (value dataPoint) (map value historicalData) 3.5
                    in (isAnomaly m, score m)))
          \<and> (name a = ''iqr'' \<longrightarrow>
               (isAnomaly a, score a)
                 = (let q = iqr (value dataPoint) (map value historicalData) 1.5
                    in (isAnomaly q, score q))))"
proof -
  let ?v = "value dataPoint" and ?d = "map value historicalData"
  obtain F L where c: "map core (algorithms r) = enabledReadings this ?v ?d F L"
    using detect_algorithms_core[OF assms] by blast
  have s: "core ` set (algorithms r) = set (enabledReadings this ?v ?d F L)"
    using c by (metis set_map)
  have ex: "\<exists>a \<in> set (algorithms r). name a = n"
    if "(n, x) \<in> set (enabledReadings this ?v ?d F L)" for n x
  proof -
    from that s have "(n, x) \<in> core ` set (algorithms r)" by simp
    then obtain a where "a \<in> set (algorithms r)" "core a = (n, x)" by (auto simp: image_iff)
    then show ?thesis by (auto simp: core_def)
  qed
  have mem: "core a \<in> set (enabledReadings this ?v ?d F L)" if "a \<in> set (algorithms r)" for a
    using that s by auto
  have t: "getSensitivityThreshold this
             = (case sensitivity (config this) of
                  S_low \<Rightarrow> 4 | S_medium \<Rightarrow> 3 | S_high \<Rightarrow> 2 | S_adaptive \<Rightarrow> 3)"
    by (simp add: getSensitivityThreshold_def)
  have p1: "shouldRunAlgorithm this ''zscore'' \<longrightarrow> (\<exists>a \<in> set (algorithms r). name a = ''zscore'')"
    by (auto intro!: ex simp: enabledReadings_def reading_def)
  have p2: "shouldRunAlgorithm this ''mad'' \<longrightarrow> (\<exists>a \<in> set (algorithms r). name a = ''mad'')"
    by (auto intro!: ex simp: enabledReadings_def reading_def)
  have p3: "shouldRunAlgorithm this ''iqr'' \<longrightarrow> (\<exists>a \<in> set (algorithms r). name a = ''iqr'')"
    by (auto intro!: ex simp: enabledReadings_def reading_def)
  have p4: "(name a = ''zscore'' \<longrightarrow>
               (isAnomaly a, score a)
                 = (let z = zScore ?v ?d
                              (case sensitivity (config this) of
                                 S_low \<Rightarrow> 4 | S_medium \<Rightarrow> 3 | S_high \<Rightarrow> 2 | S_adaptive \<Rightarrow> 3)
                    in (isAnomaly z, score z)))
          \<and> (name a = ''mad'' \<longrightarrow>
               (isAnomaly a, score a) = (let m = mad ?v ?d 3.5 in (isAnomaly m, score m)))
          \<and> (name a = ''iqr'' \<longrightarrow>
               (isAnomaly a, score a) = (let q = iqr ?v ?d 1.5 in (isAnomaly q, score q)))"
    if "a \<in> set (algorithms r)" for a
    using mem[OF that] unfolding t[symmetric]
    by (auto simp: enabledReadings_def reading_def core_def Let_def split: if_splits)
  show ?thesis using p1 p2 p3 p4 by blast
qed

lemma zScore_unfold:
  "zScore v data t =
     (if length data < 2 then \<lparr>isAnomaly = False, score = Fin 0, StatResult.deviation = Fin 0\<rparr>
      else if jeq (jsStdDev data) (Fin 0)
      then \<lparr>isAnomaly = False, score = Fin 0, StatResult.deviation = Fin 0\<rparr>
      else \<lparr>isAnomaly = jgt (jabs (jdiv (jsub (Fin v) (jsMean data)) (jsStdDev data))) (Fin t),
            score = jmin (jdiv (jabs (jdiv (jsub (Fin v) (jsMean data)) (jsStdDev data))) (Fin t)) (Fin 1),
            StatResult.deviation = jabs (jdiv (jsub (Fin v) (jsMean data)) (jsStdDev data))\<rparr>)"
  by (simp add: zScore_def Let_def mean_fold variance_fold jsStdDev_def)

lemma twoLevel_values: "map value twoLevelHistory = replicate 15 1 @ replicate 15 3"
  by (simp add: twoLevelHistory_def samplePoint_def)

lemma twoLevel_mean: "jsMean (replicate 15 1 @ replicate 15 3) = Fin 2"
  by (simp add: jsMean_def jsum_def numeral_eq_Suc)

lemma twoLevel_stdDev: "jsStdDev (replicate 15 1 @ replicate 15 3) = Fin 1"
  unfolding jsStdDev_def jsVariance_def twoLevel_mean
  by (simp add: jsum_def jsub_def numeral_eq_Suc)

lemma twoLevel_zScore:
  "isAnomaly (zScore 5 (replicate 15 1 @ replicate 15 3) 2)"
  "score (zScore 5 (replicate 15 1 @ replicate 15 3) 2) = Fin 1"
  "\<not> isAnomaly (zScore 5 (replicate 15 1 @ replicate 15 3) 3)"
  unfolding zScore_unfold twoLevel_mean twoLevel_stdDev
  by (simp_all add: jsub_def jgt_def)

lemma twoLevel_sorted:
  "sort (replicate 15 1 @ replicate 15 (3::real)) = replicate 15 1 @ replicate 15 3"
  by (rule sorted_sort_id) (simp add: sorted_append)

lemma twoLevel_median: "median (map Fin (replicate 15 1 @ replicate 15 3)) = Fin 2"
  by (simp add: median_def js_nth_def nth_append)

lemma twoLevel_mad:
  "mad 5 (replicate 15 1 @ replicate 15 3) 3.5
     = \<lparr>isAnomaly = False, score = Fin (2603723955995485 / 4503599627370496),
        StatResult.deviation = Fin (4556516922992099 / 2251799813685248)\<rparr>"
  "isAnomaly (mad 5 (replicate 15 1 @ replicate 15 3) 2)"
  unfolding mad_def Let_def twoLevel_sorted twoLevel_median
  by (simp_all add: median_def js_nth_def nth_append jsub_def jgt_def lit_def rounding_80 rounding_81 rounding_82 rounding_83)

lemma twoLevel_quartiles:
  "percentile (map Fin (replicate 15 1 @ replicate 15 3)) 25 = Fin 1"
  "percentile (map Fin (replicate 15 1 @ replicate 15 3)) 75 = Fin 3"
  by (simp_all add: percentile_def js_nth_def nth_append jsub_def)

lemma twoLevel_iqr:
  "iqr 7 (replicate 15 1 @ replicate 15 3) 1.5
     = \<lparr>isAnomaly = True, score = Fin (1 / 2), IqrResult.expectedRange = (Fin (- 2), Fin 6)\<rparr>"
  "\<not> isAnomaly (iqr 7 (replicate 15 1 @ replicate 15 3) 3)"
  unfolding iqr_def Let_def twoLevel_sorted twoLevel_quartiles
  by (simp_all add: jsub_def jgt_def)

theorem C10_detector_thresholds_witness:
  "\<not> int (length twoLevelHistory) < minDataPoints (config highSensitivity)
   \<and> (\<exists>r. fst (detect sampleFormat highSensitivity (samplePoint 5) twoLevelHistory sampleHost) = Inr r
          \<and> (\<exists>a \<in> set (algorithms r). name a = ''zscore'' \<and> isAnomaly a \<and> score a = Fin 1)
          \<and> (\<exists>a \<in> set (algorithms r). name a = ''mad'' \<and> \<not> isAnomaly a \<and> score a = Fin (2603723955995485 / 4503599627370496)))
   \<and> (\<exists>r. fst (detect sampleFormat highSensitivity (samplePoint 7) twoLevelHistory sampleHost) = Inr r
          \<and> (\<exists>a \<in> set (algorithms r). name a = ''iqr'' \<and> isAnomaly a \<and> score a = Fin (1 / 2)))
   \<and> \<not> isAnomaly (zScore 5 (map value twoLevelHistory) 3)
   \<and> isAnomaly (mad 5 (map value twoLevelHistory) 2)
   \<and> \<not> isAnomaly (iqr 7 (map value twoLevelHistory) 3)"
proof -
  let ?d = "replicate 15 1 @ replicate 15 (3::real)"
  have long: "\<not> int (length twoLevelHistory) < minDataPoints (config highSensitivity)"
    by (simp add: twoLevelHistory_def highSensitivity_def newDetector_def defaultConfig_def)
  have ne: "twoLevelHistory \<noteq> []" by (simp add: twoLevelHistory_def)
  have run: "shouldRunAlgorithm highSensitivity n" for n
    by (simp add: highSensitivity_def newDetector_def defaultConfig_def shouldRunAlgorithm_def)
  have sens: "sensitivity (config highSensitivity) = S_high"
    by (simp add: highSensitivity_def newDetector_def defaultConfig_def)
  have v: "value (samplePoint 5) = 5" "value (samplePoint 7) = 7" by (simp_all add: samplePoint_def)
  obtain r5 where r5: "fst (detect sampleFormat highSensitivity (samplePoint 5) twoLevelHistory sampleHost) = Inr r5"
    using detect_returns[OF ne] by blast
  obtain r7 where r7: "fst (detect sampleFormat highSensitivity (samplePoint 7) twoLevelHistory sampleHost) = Inr r7"
    using detect_returns[OF ne] by blast
  note T5 = C10_detector_thresholds[OF long r5, unfolded twoLevel_values v sens]
  note T7 = C10_detector_thresholds[OF long r7, unfolded twoLevel_values v sens]
  from T5 run obtain a1 where a1: "a1 \<in> set (algorithms r5)" "name a1 = ''zscore''" by blast
  from T5 run obtain a2 where a2: "a2 \<in> set (algorithms r5)" "name a2 = ''mad''" by blast
  from T7 run obtain a3 where a3: "a3 \<in> set (algorithms r7)" "name a3 = ''iqr''" by blast
  from T5 a1 have "(isAnomaly a1, score a1)
      = (let z = zScore 5 ?d (case S_high of S_low \<Rightarrow> 4 | S_medium \<Rightarrow> 3 | S_high \<Rightarrow> 2 | S_adaptive \<Rightarrow> 3)
         in (isAnomaly z, score z))" by blast
  then have b1: "isAnomaly a1 \<and> score a1 = Fin 1"
    by (simp add: twoLevel_zScore Let_def)
  from T5 a2 have "(isAnomaly a2, score a2) = (let m = mad 5 ?d 3.5 in (isAnomaly m, score m))" by blast
  then have b2: "\<not> isAnomaly a2 \<and> score a2 = Fin (2603723955995485 / 4503599627370496)"
    unfolding twoLevel_mad(1) by (simp add: Let_def)
  from T7 a3 have "(isAnomaly a3, score a3) = (let q = iqr 7 ?d 1.5 in (isAnomaly q, score q))" by blast
  then have b3: "isAnomaly a3 \<and> score a3 = Fin (1 / 2)"
    unfolding twoLevel_iqr(1) by (simp add: Let_def)
  have other: "\<not> isAnomaly (zScore 5 (map value twoLevelHistory) 3)"
      "isAnomaly (mad 5 (map value twoLevelHistory) 2)"
      "\<not> isAnomaly (iqr 7 (map value twoLevelHistory) 3)"
    unfolding twoLevel_values by (rule twoLevel_zScore(3) twoLevel_mad(2) twoLevel_iqr(2))+
  show ?thesis using long r5 r7 a1 a2 a3 b1 b2 b3 other by blast
qed

section \<open>Unknown algorithm names\<close>

lemma detect_no_detector_enabled:
  assumes "historicalData \<noteq> []"
  shows "\<exists>r. fst (detect fmt this dataPoint historicalData h) = Inr r
           \<and> (\<not> int (length historicalData) < minDataPoints (config this)
                \<and> \<not> shouldRunAlgorithm this ''zscore'' \<and> \<not> shouldRunAlgorithm this ''mad''
                \<and> \<not> shouldRunAlgorithm this ''iqr'' \<and> \<not> shouldRunAlgorithm this ''isolation-forest''
                \<and> \<not> shouldRunAlgorithm this ''lof''
              \<longrightarrow> algorithms r = [] \<and> \<not> isAnomaly r)"
proof -
  obtain r where r: "fst (detect fmt this dataPoint historicalData h) = Inr r"
    using detect_returns[OF assms] by blast
  have "algorithms r = [] \<and> \<not> isAnomaly r"
    if long: "\<not> int (length historicalData) < minDataPoints (config this)"
    and none: "\<not> shouldRunAlgorithm this ''zscore''" "\<not> shouldRunAlgorithm this ''mad''"
       "\<not> shouldRunAlgorithm this ''iqr''" "\<not> shouldRunAlgorithm this ''isolation-forest''"
       "\<not> shouldRunAlgorithm this ''lof''"
  proof -
    obtain rs F L where a: "map core rs = enabledReadings this (value dataPoint) (map value historicalData) F L"
        "isAnomaly r = isAnomaly (ensembleVote this rs)"
        "algorithms r = algorithms (ensembleVote this rs)"
      using detect_result[OF long r] by blast
    have "rs = []" using a(1) none by (simp add: enabledReadings_def)
    then show ?thesis using a(2,3) by (simp add: ensembleVote_def)
  qed
  with r show ?thesis by blast
qed

text \<open>
  Claim C6, as the code has it: \<open>detect\<close> does not raise on an algorithm name it does
  not know. \<open>shouldRunAlgorithm\<close> only looks a name up in the configured list, so that
  a name no detector answers to selects nothing: for every configuration and every
  non-empty history \<open>detect\<close> returns a result, and when the history passes the guard
  and the list enables none of the five detectors, the result lists no algorithm and
  is no anomaly.
\<close>

theorem C6_detect_returns_whatever_the_names:
  assumes "historicalData \<noteq> []"
  shows "\<exists>r. fst (detect fmt this dataPoint historicalData h) = Inr r
           \<and> (\<not> int (length historicalData) < minDataPoints (config this)
                \<and> \<not> shouldRunAlgorithm this ''zscore'' \<and> \<not> shouldRunAlgorithm this ''mad''
                \<and> \<not> shouldRunAlgorithm this ''iqr'' \<and> \<not> shouldRunAlgorithm this ''isolation-forest''
                \<and> \<not> shouldRunAlgorithm this ''lof''
              \<longrightarrow> algorithms r = [] \<and> \<not> isAnomaly r)"
  using assms by (rule detect_no_detector_enabled)

theorem C6_detect_returns_whatever_the_names_witness:
  "history30 100 \<noteq> []
   \<and> (\<exists>r. fst (detect sampleFormat (newDetector (\<lambda>c. c\<lparr>AdvancedDetectorConfig.algorithms := [''prophet'']\<rparr>))
                  (samplePoint 1000) (history30 100) sampleHost) = Inr r
          \<and> algorithms r = [] \<and> \<not> isAnomaly r)"
proof -
  have ne: "history30 100 \<noteq> []" by (simp add: history30_def)
  show ?thesis
    using ne C6_detect_returns_whatever_the_names[OF ne, of sampleFormat
        "newDetector (\<lambda>c. c\<lparr>AdvancedDetectorConfig.algorithms := [''prophet'']\<rparr>)"
        "samplePoint 1000" sampleHost]
    by (simp add: history30_def newDetector_def defaultConfig_def shouldRunAlgorithm_def)
qed

text \<open>
  Claim C6 as stated fails: with \<^verbatim>\<open>algorithms: ['prophet']\<close>, an unknown name given
  explicitly, on a history of 30 points, \<open>detect\<close> returns a result (no anomaly, no
  algorithm run) instead of raising.
\<close>

theorem C6_unknown_algorithm_does_not_raise:
  "map_sum id (\<lambda>r. (isAnomaly r, algorithms r))
     (fst (detect sampleFormat (newDetector (\<lambda>c. c\<lparr>AdvancedDetectorConfig.algorithms := [''prophet'']\<rparr>))
             (samplePoint 1000) (history30 100) sampleHost))
   = Inr (False, [])"
proof -
  let ?det = "newDetector (\<lambda>c. c\<lparr>AdvancedDetectorConfig.algorithms := [''prophet'']\<rparr>)"
  have ne: "history30 100 \<noteq> []" by (simp add: history30_def)
  obtain r where r: "fst (detect sampleFormat ?det (samplePoint 1000) (history30 100) sampleHost) = Inr r"
     and i: "\<not> int (length (history30 100)) < minDataPoints (config ?det)
                \<and> \<not> shouldRunAlgorithm ?det ''zscore'' \<and> \<not> shouldRunAlgorithm ?det ''mad''
                \<and> \<not> shouldRunAlgorithm ?det ''iqr'' \<and> \<not> shouldRunAlgorithm ?det ''isolation-forest''
                \<and> \<not> shouldRunAlgorithm ?det ''lof''
              \<longrightarrow> algorithms r = [] \<and> \<not> isAnomaly r"
    using detect_no_detector_enabled[OF ne] by blast
  have "algorithms r = [] \<and> \<not> isAnomaly r"
    using i by (simp add: history30_def newDetector_def defaultConfig_def shouldRunAlgorithm_def)
  then show ?thesis by (simp add: r)
qed

section \<open>Degenerate dispersion\<close>

lemma zScore_zero_stdDev:
  assumes "jsStdDev data = Fin 0"
  shows "zScore v data t = \<lparr>isAnomaly = False, score = Fin 0, StatResult.deviation = Fin 0\<rparr>"
  using assms by (simp add: zScore_unfold)

lemma mad_zero_mad:
  assumes "median (map (\<lambda>x. jabs (jsub (Fin x) (median (map Fin (sort data))))) data) = Fin 0"
  shows "mad v data t = \<lparr>isAnomaly = False, score = Fin 0, StatResult.deviation = Fin 0\<rparr>"
  using assms by (simp add: mad_def Let_def)

text \<open>
  Claim C1: a detector called on historical data of degenerate dispersion (zero
  population variance for \<open>zScore\<close>, zero MAD for \<open>mad\<close>, zero IQR for \<open>iqr\<close>)
  reports no anomaly and the score 0, whatever the candidate value, and divides by
  nothing that is zero. \<open>zScore\<close> and \<open>mad\<close> do so when the dispersion they compute is 0
  (\<open>zScore_zero_stdDev\<close>, \<open>mad_zero_mad\<close>): each returns before its division. \<open>iqr\<close> has
  no such guard: on the constant array \<open>[1, 1, 1, 1]\<close> both quartiles are 1, the range
  is 0, the bounds are \<open>[1, 1]\<close>, and the candidate 5 lies above them, so that the
  distance is \<open>(5 - 1) / 0\<close>, that is \<^verbatim>\<open>Infinity\<close>, and the result is an anomaly of score 1.
\<close>

theorem C1_iqr_zero_spread_flags_anomaly:
  "iqr 5 [1, 1, 1, 1] 1.5 =
     \<lparr>isAnomaly = True, score = Fin 1, IqrResult.expectedRange = (Fin 1, Fin 1)\<rparr>"
  by (simp add: iqr_def percentile_def js_nth_def jsub_def jgt_def Let_def)

section \<open>Order and rounding\<close>

lemma jle_PInf [simp]: "jle a PInf = (a \<noteq> NaN)"
  by (cases a) simp_all

lemma jle_NInf [simp]: "jle NInf a = (a \<noteq> NaN)"
  by (cases a) simp_all

lemma jle_binary64_PInf [simp]: "jle (binary64 x) PInf"
  by simp

lemma jle_NInf_binary64 [simp]: "jle NInf (binary64 x)"
  by simp

lemma nonneg_cases:
  assumes "jle (Fin 0) a"
  shows "(\<exists>y. a = Fin y \<and> 0 \<le> y) \<or> a = PInf"
  using assms by (cases a) simp_all


lemma jabs_jneg [simp]: "jabs (jneg a) = jabs a"
  by (cases a) simp_all



lemma jdiv_pos_mono:
  assumes "0 < c" "jle a b"
  shows "jle (jdiv a (Fin c)) (jdiv b (Fin c))"
proof (cases a)
  case a: (Fin x)
  show ?thesis
  proof (cases b)
    case b: (Fin y)
    have "x / c \<le> y / c" using assms a b by (simp add: divide_right_mono)
    then have "jle (binary64 (x / c)) (binary64 (y / c))" by (rule binary64_mono)
    then show ?thesis using assms(1) a b by simp
  next
    case PInf
    then show ?thesis using assms a by simp
  next
    case NInf
    then show ?thesis using assms a by simp
  next
    case NaN
    then show ?thesis using assms a by simp
  qed
next
  case PInf
  then show ?thesis using assms by (cases b) simp_all
next
  case NInf
  then show ?thesis using assms by (cases b) simp_all
next
  case NaN
  then show ?thesis using assms by simp
qed


lemma jdiv_pos_nonneg:
  assumes "0 < c" "jle (Fin 0) a"
  shows "jle (Fin 0) (jdiv a (Fin c))"
  using jdiv_pos_mono[OF assms] assms(1) by simp




section \<open>Monotonicity of the score\<close>















section \<open>A spike over a constant history\<close>

lemma constant_mean: "jsMean (replicate 30 100) = Fin 100"
  by (simp add: jsMean_def jsum_def numeral_eq_Suc)

lemma constant_stdDev: "jsStdDev (replicate 30 100) = Fin 0"
  unfolding jsStdDev_def jsVariance_def constant_mean
  by (simp add: jsum_def jsub_def numeral_eq_Suc)

lemma constant_zScore:
  "zScore v (replicate 30 100) t = \<lparr>isAnomaly = False, score = Fin 0, StatResult.deviation = Fin 0\<rparr>"
  by (rule zScore_zero_stdDev) (rule constant_stdDev)

lemma sort_replicate: "sort (replicate n (c::real)) = replicate n c"
  by (simp add: sorted_sort_id sorted_replicate)

lemma constant_mad:
  "mad v (replicate 30 100) t = \<lparr>isAnomaly = False, score = Fin 0, StatResult.deviation = Fin 0\<rparr>"
  by (rule mad_zero_mad)
     (simp add: sort_replicate median_def js_nth_def jsub_def)

lemma constant_quartiles:
  "percentile (map Fin (replicate 30 100)) 25 = Fin 100"
  "percentile (map Fin (replicate 30 100)) 75 = Fin 100"
  by (simp_all add: percentile_def js_nth_def jsub_def)

lemma constant_iqr:
  "iqr 1000 (replicate 30 100) m
     = \<lparr>isAnomaly = True, score = Fin 1, IqrResult.expectedRange = (Fin 100, Fin 100)\<rparr>"
  unfolding iqr_def Let_def sort_replicate constant_quartiles
  by (simp add: jsub_def jgt_def)

lemma constant_lof:
  "lof 1000 (replicate 30 100) 5
     = Inr \<lparr>isAnomaly = False, score = Fin (4503599126970593 / 9007199254740992)\<rparr>"
  by (simp add: lof_def Let_def sort_by_def numeral_eq_Suc jsub_def jgt_def lit_def rounding_84 rounding_91 rounding_92 rounding_3)

subsection \<open>The score of the isolation forest\<close>

lemma isolationForest_loop_length:
  "length (fst (isolationForest_loop v data n depths h)) = length depths + n"
  by (induction n arbitrary: depths h) (simp_all add: split_def Let_def)

lemma foldl_depths_nonneg:
  assumes "jle (Fin 0) a"
  shows "jle (Fin 0) (foldl (\<lambda>a b. jadd a (Fin (real b))) a ds)"
  using assms
proof (induction ds arbitrary: a)
  case Nil
  then show ?case by simp
next
  case (Cons d ds)
  have "jle (Fin 0) (jadd a (Fin (real d)))"
  proof (cases a)
    case (Fin y)
    then have "0 \<le> y + real d" using Cons.prems by simp
    then show ?thesis unfolding Fin by (simp add: binary64_nonneg)
  qed (use Cons.prems in simp_all)
  then show ?case by (simp add: Cons.IH)
qed

lemma expectedIsolationDepth_30:
  "\<exists>e. expectedIsolationDepth 30 = Fin e \<and> 1 \<le> e"
proof -
  have "exp 1 \<le> (29::real)" using exp_le by linarith
  then have l1: "1 \<le> ln (29::real)" by (subst ln_ge_iff) simp_all
  have l2: "ln (29::real) \<le> 28" using ln_le_minus_one[of "29::real"] by simp
  obtain y where y: "binary64 (ln 29) = Fin y" "1 \<le> y" "y \<le> 28"
    using binary64_between[OF l1 l2, of 1 28] by auto
  have "3 / 2 \<le> y + 2599548253356053 / 4503599627370496"
       "y + 2599548253356053 / 4503599627370496 \<le> 29"
    using y(2,3) by simp_all
  then obtain y2 where y2: "binary64 (y + 2599548253356053 / 4503599627370496) = Fin y2"
      "3 / 2 \<le> y2" "y2 \<le> 29"
    using binary64_between[of "3 / 2" "y + 2599548253356053 / 4503599627370496" 29 "3 / 2" 29] by auto
  have "3 \<le> 2 * y2" "2 * y2 \<le> 58" using y2(2,3) by simp_all
  then obtain y3 where y3: "binary64 (2 * y2) = Fin y3" "3 \<le> y3" "y3 \<le> 58"
    using binary64_between[of 3 "2 * y2" 58 3 58] by auto
  have "1 \<le> y3 - 8706959279582959 / 4503599627370496"
       "y3 - 8706959279582959 / 4503599627370496 \<le> 58"
    using y3(2,3) by simp_all
  then obtain e where e: "binary64 (y3 - 8706959279582959 / 4503599627370496) = Fin e" "1 \<le> e"
    using binary64_between[of 1 "y3 - 8706959279582959 / 4503599627370496" 58 1 58] by auto
  have "expectedIsolationDepth 30 = Fin e"
    by (simp add: expectedIsolationDepth_def lit_def y(1) y2(1) y3(1) jsub_def rounding_93 rounding_94 e(1))
  with e(2) show ?thesis by blast
qed

lemma jpow2_nonpos:
  assumes "jle x (Fin 0)"
  shows "\<exists>s. jpow2 x = Fin s \<and> 0 \<le> s \<and> s \<le> 1"
proof (cases x)
  case (Fin y)
  then have y: "y \<le> 0" using assms by simp
  have "2 powr y \<le> 2 powr 0" using y by (intro powr_mono) simp_all
  then have u: "2 powr y \<le> (1::real)" by simp
  have l: "0 \<le> (2::real) powr y" by simp
  show ?thesis unfolding Fin using binary64_between[OF l u binary64_zero binary64_one] by simp
qed (use assms in simp_all)

lemma jle_jneg_zero: "jle (Fin 0) a \<Longrightarrow> jle (jneg a) (Fin 0)"
  by (cases a) simp_all

lemma isolationForest_score_unit:
  assumes "length data = 30"
  shows "\<exists>s. score (fst (isolationForest v data 100 h)) = Fin s \<and> 0 \<le> s \<and> s \<le> 1"
proof -
  obtain e where e: "expectedIsolationDepth 30 = Fin e" "1 \<le> e"
    using expectedIsolationDepth_30 by blast
  then have e0: "0 < e" by simp
  obtain depths h' where l: "isolationForest_loop v data 100 [] h = (depths, h')"
    by (cases "isolationForest_loop v data 100 [] h")
  have len: "length depths = 100"
    using isolationForest_loop_length[of v data 100 "[]" h] by (simp add: l)
  let ?sum = "foldl (\<lambda>a b. jadd a (Fin (real b))) (Fin 0) depths"
  have "jle (Fin 0) ?sum" by (rule foldl_depths_nonneg) simp
  then have "jle (Fin 0) (jdiv ?sum (Fin 100))" by (intro jdiv_pos_nonneg) simp_all
  then have "jle (jneg (jdiv ?sum (Fin 100))) (Fin 0)" by (rule jle_jneg_zero)
  then have "jle (jdiv (jneg (jdiv ?sum (Fin 100))) (Fin e)) (jdiv (Fin 0) (Fin e))"
    by (rule jdiv_pos_mono[OF e0])
  then have "jle (jdiv (jneg (jdiv ?sum (Fin 100))) (Fin e)) (Fin 0)" using e0 by simp
  then obtain s where s: "jpow2 (jdiv (jneg (jdiv ?sum (Fin 100))) (Fin e)) = Fin s" "0 \<le> s" "s \<le> 1"
    using jpow2_nonpos by blast
  have "score (fst (isolationForest v data 100 h)) = Fin s"
    using assms by (simp add: isolationForest_def l Let_def len e(1) s(1))
  with s(2,3) show ?thesis by blast
qed

subsection \<open>The vote\<close>

lemma constant_history_vote:
  assumes "map core rs = [(''zscore'', False, Fin 0), (''mad'', False, Fin 0), (''iqr'', True, Fin 1),
                          (''isolation-forest'', b, Fin s),
                          (''lof'', False, Fin (4503599126970593 / 9007199254740992))]"
      and "0 \<le> s" "s \<le> 1"
  shows "\<not> isAnomaly (ensembleVote detector rs) \<and> severity (ensembleVote detector rs) = info"
proof -
  let ?l = "4503599126970593 / 9007199254740992 :: real"
  let ?d02 = "3602879701896397 / 18014398509481984 :: real"
  let ?d06 = "5404319552844595 / 9007199254740992 :: real"
  let ?d08 = "3602879701896397 / 4503599627370496 :: real"
  obtain a1 a2 a3 a4 a5 where rs: "rs = [a1, a2, a3, a4, a5]"
      and c: "core a1 = (''zscore'', False, Fin 0)" "core a2 = (''mad'', False, Fin 0)"
             "core a3 = (''iqr'', True, Fin 1)" "core a4 = (''isolation-forest'', b, Fin s)"
             "core a5 = (''lof'', False, Fin ?l)"
    using assms(1) by (auto simp: map_eq_Cons_conv)
  have sc: "score a1 = Fin 0" "score a2 = Fin 0" "score a3 = Fin 1" "score a4 = Fin s" "score a5 = Fin ?l"
    using c by (simp_all add: core_def)
  have an: "\<not> isAnomaly a1" "\<not> isAnomaly a2" "isAnomaly a3" "isAnomaly a4 = b" "\<not> isAnomaly a5"
    using c by (simp_all add: core_def)
  have ws: "calculateAlgorithmWeights detector rs = [Fin 1, Fin 1, Fin 1, Fin 1, Fin 1]"
    by (simp add: rs calculateAlgorithmWeights_def detector_def newDetector_def defaultConfig_def)
  have th: "getThreshold detector = Fin ?d06"
    by (simp add: getThreshold_def detector_def newDetector_def defaultConfig_def lit_def rounding_1)
  have nonempty: "rs \<noteq> []" by (simp add: rs)
  have s1: "s \<le> 1" and s0: "0 \<le> s" using assms by simp_all
  obtain s' where s': "binary64 s = Fin s'" "0 \<le> s'" "s' \<le> 1"
    using binary64_between[OF s0 s1 binary64_zero binary64_one] by blast
  have "1 \<le> 1 + s'" "1 + s' \<le> 2" using s'(2,3) by simp_all
  then obtain a where a: "binary64 (1 + s') = Fin a" "1 \<le> a" "a \<le> 2"
    using binary64_between[of 1 "1 + s'" 2 1 2] by auto
  have "1 \<le> a + ?l" "a + ?l \<le> 3" using a(2,3) by simp_all
  then obtain W where W: "binary64 (a + ?l) = Fin W" "1 \<le> W" "W \<le> 3"
    using binary64_between[of 1 "a + ?l" 3 1 3] by auto
  have wsum: "jsum (map (\<lambda>(r, w). jmul (score r) w) (zip rs (calculateAlgorithmWeights detector rs)))
                = Fin W"
    unfolding ws by (simp add: rs sc jsum_def rounding_3 s'(1) a(1) W(1))
  have tot: "jsum (calculateAlgorithmWeights detector rs) = Fin 5"
    unfolding ws by (simp add: jsum_def)
  have "1 / 5 \<le> W / 5" "W / 5 \<le> 3 / 5" using W(2,3) by simp_all
  then obtain N where N: "binary64 (W / 5) = Fin N" "?d02 \<le> N" "N \<le> ?d06"
    using binary64_between[of "1 / 5" "W / 5" "3 / 5" ?d02 ?d06] by (auto simp: rounding_95 rounding_1)
  have norm: "jdiv (Fin W) (Fin 5) = Fin N" by (simp add: N(1))
  have notgt: "\<not> jgt (Fin N) (Fin ?d06)" using N(3) by (simp add: jgt_def)
  define k where "k = real (length (filter isAnomaly rs))"
  have k: "0 \<le> k / 5" "k / 5 \<le> 1" by (auto simp: k_def rs an)
  obtain g where g: "binary64 (k / 5) = Fin g" "0 \<le> g" "g \<le> 1"
    using binary64_between[OF k binary64_zero binary64_one] by blast
  have agr: "jdiv (Fin (real (length (filter isAnomaly rs)))) (Fin (real (length rs))) = Fin g"
    using g(1) by (simp add: k_def rs)
  have "0 \<le> 1 - g" "1 - g \<le> 1" using g(2,3) by simp_all
  then obtain g' where g': "binary64 (1 - g) = Fin g'" "0 \<le> g'" "g' \<le> 1"
    using binary64_between[of 0 "1 - g" 1 0 1] by auto
  have "0 \<le> 1 - N" "1 - N \<le> 1" using N(2,3) by simp_all
  then obtain n' where n': "binary64 (1 - N) = Fin n'" "0 \<le> n'" "n' \<le> 1"
    using binary64_between[of 0 "1 - N" 1 0 1] by auto
  have "0 \<le> g' * n'" using g'(2) n'(2) by simp
  moreover have "g' * n' \<le> 1 * 1" using g' n' by (intro mult_mono) simp_all
  ultimately obtain cf where cf: "binary64 (g' * n') = Fin cf" "0 \<le> cf" "cf \<le> 1"
    using binary64_between[of 0 "g' * n'" 1 0 1] by auto
  have conf: "jmul (jsub (Fin 1) (Fin g)) (jsub (Fin 1) (Fin N)) = Fin cf"
    by (simp add: jsub_def g'(1) n'(1) cf(1))
  have N0: "0 \<le> N" using N(2) by simp
  have "0 \<le> N * cf" using N0 cf(2) by simp
  moreover have "N * cf \<le> ?d06 * 1" using N(3) N0 cf by (intro mult_mono) simp_all
  ultimately obtain q where q: "binary64 (N * cf) = Fin q" "q \<le> ?d06"
    using binary64_between[of 0 "N * cf" ?d06 0 ?d06] by (auto simp: rounding_96)
  have sev: "determineSeverity (Fin N) (Fin cf) = info"
    using q(2) by (simp add: determineSeverity_def Let_def jgt_def lit_def rounding_97 rounding_1 q(1))
  show ?thesis
    unfolding ensembleVote_nonempty[OF nonempty] Let_def wsum tot th norm agr
    using notgt by (simp add: conf sev)
qed

lemma detect_constant_history:
  assumes "map value historicalData = replicate 30 100" "value dataPoint = 1000"
  shows "\<exists>r. fst (detect fmt detector dataPoint historicalData h) = Inr r
           \<and> \<not> isAnomaly r \<and> severity r = info \<and> deviation (explanation r) = Fin 0"
proof -
  have len: "length historicalData = 30" using assms(1) by (metis length_map length_replicate)
  then have ne: "historicalData \<noteq> []" by auto
  have long: "\<not> int (length historicalData) < minDataPoints (config detector)"
    using len by (simp add: detector_def newDetector_def defaultConfig_def)
  have run: "shouldRunAlgorithm detector n" for n
    by (simp add: detector_def newDetector_def defaultConfig_def shouldRunAlgorithm_def)
  obtain r where r: "fst (detect fmt detector dataPoint historicalData h) = Inr r"
    using detect_returns[OF ne] by blast
  obtain rs F L h' where a:
      "lof 1000 (replicate 30 100) 5 = Inr L"
      "F = fst (isolationForest 1000 (replicate 30 100) 100 h')"
      "map core rs = enabledReadings detector 1000 (replicate 30 100) F L"
      "isAnomaly r = isAnomaly (ensembleVote detector rs)"
      "severity r = severity (ensembleVote detector rs)"
    using detect_result[OF long r] unfolding assms by blast
  obtain f where f: "score F = Fin f" "0 \<le> f" "f \<le> 1"
    using isolationForest_score_unit[of "replicate 30 100" 1000 h'] a(2) by auto
  have L: "L = \<lparr>isAnomaly = False, score = Fin (4503599126970593 / 9007199254740992)\<rparr>"
    using a(1) constant_lof by simp
  have cores: "map core rs = [(''zscore'', False, Fin 0), (''mad'', False, Fin 0), (''iqr'', True, Fin 1),
                              (''isolation-forest'', isAnomaly F, Fin f),
                              (''lof'', False, Fin (4503599126970593 / 9007199254740992))]"
    unfolding a(3)
    by (simp add: enabledReadings_def run reading_def constant_zScore constant_mad constant_iqr f L)
  have v: "\<not> isAnomaly (ensembleVote detector rs) \<and> severity (ensembleVote detector rs) = info"
    using cores f(2,3) by (rule constant_history_vote)
  have dev: "deviation (explanation r) = Fin 0"
    using detect_explanation[OF long r] unfolding assms constant_stdDev by (simp add: jgt_def)
  show ?thesis using r a(4,5) v dev by simp
qed

text \<open>
  Claim C2, as the code has it: with the default configuration (the ensemble, medium
  sensitivity, adaptive weighting, 30 points at least), \<open>detect\<close> applied to the value
  1000 against the constant history of 30 points at 100 returns \<open>isAnomaly = false\<close>,
  the severity \<open>info\<close> and the deviation 0, whatever the random source. The sums over
  the history are exact, the variance and the MAD are 0, so that \<open>zScore\<close> and \<open>mad\<close>
  score 0; the three other scores are at most 1, the weighted score is at most the
  binary64 number nearest to \<open>3/5\<close>, which is the threshold 0.6 and hence not above it;
  and the explanation reports the deviation 0 when the standard deviation is 0.
\<close>

theorem C2_constant_history_is_no_anomaly:
  assumes "map value historicalData = replicate 30 100" "value dataPoint = 1000"
  shows "\<exists>r. fst (detect fmt detector dataPoint historicalData h) = Inr r
           \<and> \<not> isAnomaly r \<and> severity r = info \<and> deviation (explanation r) = Fin 0"
  using assms by (rule detect_constant_history)

theorem C2_constant_history_is_no_anomaly_witness:
  "map value (history30 100) = replicate 30 100 \<and> value (samplePoint 1000) = 1000
   \<and> (\<exists>r. fst (detect sampleFormat detector (samplePoint 1000) (history30 100) sampleHost) = Inr r
          \<and> \<not> isAnomaly r \<and> severity r = info \<and> deviation (explanation r) = Fin 0)"
proof -
  have a: "map value (history30 100) = replicate 30 100" by (simp add: history30_def samplePoint_def)
  have b: "value (samplePoint 1000) = 1000" by (simp add: samplePoint_def)
  show ?thesis using a b C2_constant_history_is_no_anomaly[OF a b] by blast
qed

text \<open>
  Claim C2 as stated fails on its own input: the result is no anomaly, of severity
  \<open>info\<close>, and its deviation 0 is not greater than 3.
\<close>

theorem C2_spike_over_constant_history_not_flagged:
  "map_sum id (\<lambda>r. (isAnomaly r, severity r, deviation (explanation r)))
     (fst (detect sampleFormat detector (samplePoint 1000) (history30 100) sampleHost))
     = Inr (False, info, Fin 0)
   \<and> \<not> jgt (Fin 0) (Fin 3)"
proof -
  have a: "map value (history30 100) = replicate 30 100" by (simp add: history30_def samplePoint_def)
  have b: "value (samplePoint 1000) = 1000" by (simp add: samplePoint_def)
  obtain r where "fst (detect sampleFormat detector (samplePoint 1000) (history30 100) sampleHost) = Inr r"
      "\<not> isAnomaly r" "severity r = info" "deviation (explanation r) = Fin 0"
    using detect_constant_history[OF a b] by blast
  then show ?thesis by (simp add: jgt_def)
qed

section \<open>The random source\<close>

text \<open>The depth that \<open>isolationDepth\<close> returns does depend on the random draws: on
  the ten points 0 to 9 and the candidate 0, draws that are all 0 never split the
  set and the depth is the bound 4, while draws that are all \<open>1/2\<close> halve it three
  times.\<close>

lemma ceiling_log2_ten: "\<lceil>log 2 (real (10::nat))\<rceil> = 4"
proof (rule ceiling_unique)
  have "(2::real) powr 3 < 10" by simp
  then have "3 < log 2 10" by (subst less_log_iff) simp_all
  then show "of_int 4 - 1 < log 2 (real (10::nat))" by simp
  have "(10::real) \<le> 2 powr 4" by simp
  then have "log 2 10 \<le> 4" by (subst log_le_iff) simp_all
  then show "log 2 (real (10::nat)) \<le> of_int 4" by simp
qed

lemma isolationDepth_depends_on_random_source:
  "fst (isolationDepth 0 [0, 1, 2, 3, 4, 5, 6, 7, 8, 9] sampleHost) = 4
   \<and> fst (isolationDepth 0 [0, 1, 2, 3, 4, 5, 6, 7, 8, 9] otherHost) = 3"
proof -
  have a: "fst (isolationDepth_loop 0 4 [0, 1, 2, 3, 4, 5, 6, 7, 8, 9] 0 sampleHost) = 4"
    by (simp add: isolationDepth_loop.simps math_min_def math_max_def math_random_def
          sampleHost_def jsub_def jge_def Let_def)
  have b: "fst (isolationDepth_loop 0 4 [0, 1, 2, 3, 4, 5, 6, 7, 8, 9] 0 otherHost) = 3"
    by (simp add: isolationDepth_loop.simps math_min_def math_max_def math_random_def
          otherHost_def jsub_def jge_def Let_def)
  have l: "length [0, 1, 2, 3, 4, 5, 6, 7, 8, 9 :: real] = 10" by simp
  show ?thesis
    unfolding isolationDepth_def l ceiling_log2_ten using a b by simp
qed

end
